theory Spec2Isabelle
  imports Complex_Main "HOL-Library.Word"
begin

section \<open>JavaScript values\<close>

text \<open>
  A JavaScript Number is an IEEE-754 double: not-a-number, one of the two infinities, or
  a finite value, kept here as the rational it denotes (every finite double is a
  rational; the two zeros are identified, which none of the functions below can tell
  apart). A String is kept as the bytes of its UTF-8 encoding.
\<close>

datatype jsnum = NaN | PosInfinity | NegInfinity | Finite rat

datatype jsval = JBool bool | JNum jsnum | JStr string

datatype error = RangeError | TypeError | ReferenceError

text \<open>One call of \<open>console.log\<close>: the list of its arguments.\<close>

type_synonym logline = "jsval list"

text \<open>
  The arithmetic of the host. The operators \<open>*\<close> and \<open>**\<close> on Numbers round to a
  double (ECMA-262 leaves the result of \<open>**\<close> implementation-approximated), and
  Number-to-String conversion of a positive finite Number and String-to-Number
  conversion are the host's algorithms; the functions of the program take them as a
  parameter, and every theorem below holds for every host.
\<close>

record platform =
  Number_exponentiate :: "jsnum \<Rightarrow> jsnum \<Rightarrow> jsnum"
  Number_multiply :: "jsnum \<Rightarrow> jsnum \<Rightarrow> jsnum"
  Number_toString_finite :: "rat \<Rightarrow> string"
  StringToNumber :: "string \<Rightarrow> jsnum"

definition ToNumber :: "platform \<Rightarrow> jsval \<Rightarrow> jsnum" where
  "ToNumber P v =
     (case v of
        JBool b \<Rightarrow> Finite (if b then 1 else 0)
      | JNum x \<Rightarrow> x
      | JStr s \<Rightarrow> StringToNumber P s)"

definition NumberToString :: "platform \<Rightarrow> jsnum \<Rightarrow> string" where
  "NumberToString P x =
     (case x of
        NaN \<Rightarrow> ''NaN''
      | PosInfinity \<Rightarrow> ''Infinity''
      | NegInfinity \<Rightarrow> ''-Infinity''
      | Finite r \<Rightarrow>
          if r = 0 then ''0''
          else if r < 0 then ''-'' @ Number_toString_finite P (- r)
          else Number_toString_finite P r)"

definition ToString :: "platform \<Rightarrow> jsval \<Rightarrow> string" where
  "ToString P v =
     (case v of
        JBool b \<Rightarrow> (if b then ''true'' else ''false'')
      | JNum x \<Rightarrow> NumberToString P x
      | JStr s \<Rightarrow> s)"

text \<open>The decimal digits of a natural number, with no leading zero.\<close>

definition digit_char :: "nat \<Rightarrow> char" where
  "digit_char d = ''0123456789'' ! d"

fun dec :: "nat \<Rightarrow> string" where
  "dec n = (if n < 10 then [digit_char n] else dec (n div 10) @ [digit_char (n mod 10)])"

text \<open>
  \<open>Number.prototype.toFixed\<close> (ECMA-262, 21.1.3.3) on a Number: a RangeError outside
  0..100 digits; a non-finite Number prints as itself; a magnitude of at least \<open>10^21\<close>
  falls back to Number-to-String; otherwise \<open>n\<close> is the integer nearest to
  \<open>x * 10^f\<close> (the larger one on a tie), printed with \<open>f\<close> digits after the point.
\<close>

definition Number_toFixed :: "platform \<Rightarrow> jsnum \<Rightarrow> int \<Rightarrow> error + string" where
  "Number_toFixed P x fractionDigits =
     (if fractionDigits < 0 \<or> fractionDigits > 100 then Inl RangeError
      else case x of
        NaN \<Rightarrow> Inr ''NaN''
      | PosInfinity \<Rightarrow> Inr ''Infinity''
      | NegInfinity \<Rightarrow> Inr ''-Infinity''
      | Finite r \<Rightarrow>
          let f = nat fractionDigits;
              s = (if r < 0 then ''-'' else '''');
              x = \<bar>r\<bar>
          in if x \<ge> 10 ^ 21 then Inr (s @ Number_toString_finite P x)
             else
               let n = nat \<lfloor>x * 10 ^ f + 1 / 2\<rfloor>;
                   m = (if n = 0 then ''0'' else dec n);
                   m = (if f \<noteq> 0 then
                          let k = length m;
                              m = (if k \<le> f then replicate (f + 1 - k) (CHR ''0'') @ m else m);
                              k = (if k \<le> f then f + 1 else k)
                          in take (k - f) m @ ''.'' @ drop (k - f) m
                        else m)
               in Inr (s @ m))"

text \<open>
  A method call \<open>val.toFixed(digits)\<close>: only a Number has the method; on a Boolean or a
  String the property is undefined and calling it throws a TypeError.
\<close>

definition toFixed :: "platform \<Rightarrow> jsval \<Rightarrow> int \<Rightarrow> error + jsval" where
  "toFixed P val digits =
     (case val of
        JNum x \<Rightarrow> map_sum id JStr (Number_toFixed P x digits)
      | _ \<Rightarrow> Inl TypeError)"

section \<open>DataView\<close>

text \<open>
  A DataView is the sequence of its bytes. \<open>GetViewValue\<close> (ECMA-262, 25.3.1.1) throws a
  RangeError when the element does not fit, and otherwise hands the element's bytes over
  in little-endian order. The getters of one byte take no endianness argument: a second
  actual argument (\<open>extra\<close>) is never read.
\<close>

type_synonym dataView = "8 word list"

definition byteLength :: "dataView \<Rightarrow> nat" where
  "byteLength view = length view"

definition GetViewValue :: "dataView \<Rightarrow> nat \<Rightarrow> bool \<Rightarrow> nat \<Rightarrow> error + 8 word list" where
  "GetViewValue view getIndex isLittleEndian elementSize =
     (if getIndex + elementSize > byteLength view then Inl RangeError
      else let rawBytes = take elementSize (drop getIndex view)
           in Inr (if isLittleEndian then rawBytes else rev rawBytes))"

text \<open>An absent \<open>littleEndian\<close> argument is undefined, which converts to false.\<close>

definition ToBoolean_arg :: "bool option \<Rightarrow> bool" where
  "ToBoolean_arg a = (case a of None \<Rightarrow> False | Some b \<Rightarrow> b)"

fun RawBytesToUint :: "8 word list \<Rightarrow> int" where
  "RawBytesToUint [] = 0"
| "RawBytesToUint (b # bs) = uint b + 256 * RawBytesToUint bs"

definition RawBytesToInt :: "8 word list \<Rightarrow> int" where
  "RawBytesToInt bs =
     (let v = RawBytesToUint bs; n = 8 * length bs
      in if v \<ge> 2 ^ (n - 1) then v - 2 ^ n else v)"

text \<open>The value of an IEEE-754 binary32 bit pattern, given as an unsigned integer.\<close>

definition Float32_value :: "int \<Rightarrow> jsnum" where
  "Float32_value v =
     (let s = v div 2 ^ 31;
          e = (v div 2 ^ 23) mod 256;
          m = v mod 2 ^ 23;
          sign = (if s = 0 then 1 else - 1 :: rat)
      in if e = 255 then
           (if m = 0 then (if s = 0 then PosInfinity else NegInfinity) else NaN)
         else if e = 0 then Finite (sign * of_int m / 2 ^ 149)
         else if e \<ge> 150 then Finite (sign * of_int (2 ^ 23 + m) * 2 ^ nat (e - 150))
         else Finite (sign * of_int (2 ^ 23 + m) / 2 ^ nat (150 - e)))"

definition getUint8 :: "dataView \<Rightarrow> nat \<Rightarrow> bool option \<Rightarrow> error + int" where
  "getUint8 view byteOffset extra = map_sum id RawBytesToUint (GetViewValue view byteOffset True 1)"

definition getInt8 :: "dataView \<Rightarrow> nat \<Rightarrow> bool option \<Rightarrow> error + int" where
  "getInt8 view byteOffset extra = map_sum id RawBytesToInt (GetViewValue view byteOffset True 1)"

definition getUint16 :: "dataView \<Rightarrow> nat \<Rightarrow> bool option \<Rightarrow> error + int" where
  "getUint16 view byteOffset littleEndian =
     map_sum id RawBytesToUint (GetViewValue view byteOffset (ToBoolean_arg littleEndian) 2)"

definition getInt16 :: "dataView \<Rightarrow> nat \<Rightarrow> bool option \<Rightarrow> error + int" where
  "getInt16 view byteOffset littleEndian =
     map_sum id RawBytesToInt (GetViewValue view byteOffset (ToBoolean_arg littleEndian) 2)"

definition getUint32 :: "dataView \<Rightarrow> nat \<Rightarrow> bool option \<Rightarrow> error + int" where
  "getUint32 view byteOffset littleEndian =
     map_sum id RawBytesToUint (GetViewValue view byteOffset (ToBoolean_arg littleEndian) 4)"

definition getInt32 :: "dataView \<Rightarrow> nat \<Rightarrow> bool option \<Rightarrow> error + int" where
  "getInt32 view byteOffset littleEndian =
     map_sum id RawBytesToInt (GetViewValue view byteOffset (ToBoolean_arg littleEndian) 4)"

definition getFloat32 :: "dataView \<Rightarrow> nat \<Rightarrow> bool option \<Rightarrow> error + jsnum" where
  "getFloat32 view byteOffset littleEndian =
     map_sum id (\<lambda>bs. Float32_value (RawBytesToUint bs))
       (GetViewValue view byteOffset (ToBoolean_arg littleEndian) 4)"

section \<open>Constants of the program\<close>

definition IS_LITTLE_ENDIAN :: bool where
  "IS_LITTLE_ENDIAN = True"

definition PRES_DESCRIPTOR_LENGTH :: nat where
  "PRES_DESCRIPTOR_LENGTH = 7"

definition BLE_FORMAT_BOOLEAN :: int where "BLE_FORMAT_BOOLEAN = 0x01"
definition BLE_FORMAT_UINT8 :: int where "BLE_FORMAT_UINT8 = 0x04"
definition BLE_FORMAT_UINT16 :: int where "BLE_FORMAT_UINT16 = 0x06"
definition BLE_FORMAT_UINT32 :: int where "BLE_FORMAT_UINT32 = 0x08"
definition BLE_FORMAT_SINT8 :: int where "BLE_FORMAT_SINT8 = 0x0C"
definition BLE_FORMAT_SINT16 :: int where "BLE_FORMAT_SINT16 = 0x0E"
definition BLE_FORMAT_SINT32 :: int where "BLE_FORMAT_SINT32 = 0x10"
definition BLE_FORMAT_FLOAT32 :: int where "BLE_FORMAT_FLOAT32 = 0x14"

section \<open>The presentation descriptor\<close>

text \<open>
  The object built by \<open>readPresInfo\<close>: three Numbers, which the getters make integers.
\<close>

record presInfo =
  format :: int
  exponent :: int
  unit :: int

text \<open>
  \<open>readPresInfo\<close> returns the pair of its result and of the lines it logs. A descriptor
  that is too short is logged and the function falls off its end: the result is
  undefined (\<open>None\<close>), which the caller tests with \<open>if (presInfo)\<close>.
\<close>

definition readPresInfo :: "dataView \<Rightarrow> (error + presInfo option) \<times> logline list" where
  "readPresInfo dataView =
     (if byteLength dataView < PRES_DESCRIPTOR_LENGTH then
        (Inr None,
         [[JStr ''Characteristic presentation descriptor received was in invalid format'']])
      else
        (case getUint8 dataView 0 (Some IS_LITTLE_ENDIAN) of
           Inl e \<Rightarrow> (Inl e, [])
         | Inr fmt \<Rightarrow>
             (case getInt8 dataView 1 (Some IS_LITTLE_ENDIAN) of
                Inl e \<Rightarrow> (Inl e, [])
              | Inr ex \<Rightarrow>
                  (case getUint16 dataView 2 (Some IS_LITTLE_ENDIAN) of
                     Inl e \<Rightarrow> (Inl e, [])
                   | Inr u \<Rightarrow>
                       (Inr (Some \<lparr>format = fmt, exponent = ex, unit = u\<rparr>), [])))))"

section \<open>The value codec\<close>

abbreviation JInt :: "int \<Rightarrow> jsval" where
  "JInt i \<equiv> JNum (Finite (of_int i))"

text \<open>
  \<open>readValue\<close> returns the pair of its result and of the lines it logs. The \<open>switch\<close>
  chooses the length and the decoding closure, or returns 0 at once in its default
  branch (\<open>None\<close> below).
\<close>

definition readValue :: "platform \<Rightarrow> dataView \<Rightarrow> presInfo \<Rightarrow> (error + jsval) \<times> logline list" where
  "readValue P dataView presInfo =
     (case
        (if format presInfo = BLE_FORMAT_BOOLEAN then
           Some (1, \<lambda>x. map_sum id (\<lambda>v. JBool (v \<noteq> 0)) (getUint8 x 0 (Some IS_LITTLE_ENDIAN)))
         else if format presInfo = BLE_FORMAT_UINT8 then
           Some (1, \<lambda>x. map_sum id JInt (getUint8 x 0 (Some IS_LITTLE_ENDIAN)))
         else if format presInfo = BLE_FORMAT_UINT16 then
           Some (2, \<lambda>x. map_sum id JInt (getUint16 x 0 (Some IS_LITTLE_ENDIAN)))
         else if format presInfo = BLE_FORMAT_UINT32 then
           Some (4, \<lambda>x. map_sum id JInt (getUint32 x 0 (Some IS_LITTLE_ENDIAN)))
         else if format presInfo = BLE_FORMAT_SINT8 then
           Some (1, \<lambda>x. map_sum id JInt (getInt8 x 0 (Some IS_LITTLE_ENDIAN)))
         else if format presInfo = BLE_FORMAT_SINT16 then
           Some (2, \<lambda>x. map_sum id JInt (getInt16 x 0 (Some IS_LITTLE_ENDIAN)))
         else if format presInfo = BLE_FORMAT_SINT32 then
           Some (4, \<lambda>x. map_sum id JInt (getInt32 x 0 (Some IS_LITTLE_ENDIAN)))
         else if format presInfo = BLE_FORMAT_FLOAT32 then
           Some (4, \<lambda>x. map_sum id JNum (getFloat32 x 0 (Some IS_LITTLE_ENDIAN)))
         else None)
      of
        None \<Rightarrow> (Inr (JInt 0), [])
      | Some (len, decodeFunc) \<Rightarrow>
          if byteLength dataView < len then
            (Inr (JInt 0),
             [[JStr ''Characteristic value length does not match format specified in client presentation descriptor'']])
          else
            (case decodeFunc dataView of
               Inl e \<Rightarrow> (Inl e, [])
             | Inr rawVal \<Rightarrow>
                 if format presInfo = BLE_FORMAT_BOOLEAN then (Inr rawVal, [])
                 else
                   let scaleFactor =
                         Number_exponentiate P (Finite 10) (Finite (of_int (exponent presInfo)))
                   in (Inr (JNum (Number_multiply P (ToNumber P rawVal) scaleFactor)), [])))"

definition formatValue :: "platform \<Rightarrow> jsval \<Rightarrow> presInfo \<Rightarrow> error + jsval" where
  "formatValue P val presInfo =
     (if format presInfo = BLE_FORMAT_BOOLEAN then Inr val
      else
        let numDecimals = - exponent presInfo;
            numDecimals =
              (if numDecimals < 0 then 0
               else if numDecimals > 100 then 100
               else numDecimals)
        in toFixed P val numDecimals)"

section \<open>Map\<close>

text \<open>
  A JavaScript Map keeps its entries in insertion order: \<open>set\<close> on a key that is present
  replaces the value where the entry stands, and appends a new entry otherwise;
  \<open>forEach\<close> visits the entries in that order. A test with \<open>has\<close> followed by \<open>get\<close> is
  one lookup, \<open>None\<close> when the key is absent.
\<close>

type_synonym ('k, 'v) Map = "('k \<times> 'v) list"

fun Map_set :: "'k \<Rightarrow> 'v \<Rightarrow> ('k, 'v) Map \<Rightarrow> ('k, 'v) Map" where
  "Map_set k v [] = [(k, v)]"
| "Map_set k v (p # m) = (if fst p = k then (k, v) # m else p # Map_set k v m)"

definition Map_get :: "('k, 'v) Map \<Rightarrow> 'k \<Rightarrow> 'v option" where
  "Map_get m k = map_of m k"

definition Map_size :: "('k, 'v) Map \<Rightarrow> nat" where
  "Map_size m = length m"

definition Map_clear :: "('k, 'v) Map \<Rightarrow> ('k, 'v) Map" where
  "Map_clear m = []"

section \<open>Units\<close>

text \<open>
  The label of \<open>0x272F\<close> is stored in the source file as the bytes C3 82 C2 B0 43: the
  three characters U+00C2, U+00B0 and C.
\<close>

definition BLE_UNITS :: "(int, string) Map" where
  "BLE_UNITS =
     [(0x2700, ''''),
      (0x2713, ''m/s2''),
      (0x2720, ''rad''),
      (0x2724, ''Pa''),
      (0x2728, ''V''),
      (0x272D, ''uT''),
      (0x272F, [CHR 0xC3, CHR 0x82, CHR 0xC2, CHR 0xB0, CHR ''C'']),
      (0x2743, ''rad/s''),
      (0x27AD, ''%''),
      (0x27C4, ''ppm''),
      (0x27C5, ''ppb'')]"

definition getUnitString :: "presInfo \<Rightarrow> string \<times> logline list" where
  "getUnitString presInfo =
     (case Map_get BLE_UNITS (unit presInfo) of
        Some label \<Rightarrow> (label, [])
      | None \<Rightarrow>
          ('''',
           [[JStr (''Unknown BLE unit definition '' @ [CHR 0x22]),
             JInt (unit presInfo),
             JStr [CHR 0x22]]]))"

section \<open>The registry and the log\<close>

text \<open>
  The global state of \<open>glove.js\<close> that the registry and the log accumulator read and
  write: the three Maps, the timer handle with the host's table of running intervals,
  the value cells of the page (the id and the \<open>innerHTML\<close> of each, in document order),
  the console, and the texts handed to \<open>saveLog\<close>. The buttons are left out.
\<close>

record characteristicInfo =
  name :: string
  serviceName :: string
  lastEntry :: jsval

record state =
  presInfoCache :: "(string, presInfo) Map"
  characteristicList :: "(string, characteristicInfo) Map"
  log' :: "(string, (string, jsval) Map) Map"
  logTimer :: "nat option"
  intervals :: "(nat \<times> string) list"
  nextTimerId :: nat
  cells :: "(string \<times> string) list"
  console :: "logline list"
  saved :: "string list"

definition console_log :: "logline list \<Rightarrow> state \<Rightarrow> state" where
  "console_log lines st = st\<lparr>console := console st @ lines\<rparr>"

definition cacheValue :: "state \<Rightarrow> string \<Rightarrow> jsval \<Rightarrow> state" where
  "cacheValue st characteristicUuid valStr =
     (case Map_get (characteristicList st) characteristicUuid of
        Some characteristicInfo \<Rightarrow>
          st\<lparr>characteristicList :=
               Map_set characteristicUuid (characteristicInfo\<lparr>lastEntry := valStr\<rparr>)
                 (characteristicList st)\<rparr>
      | None \<Rightarrow> st)"

text \<open>
  A handler returns the state it leaves and the exception it threw, if any. In
  \<open>updateVal\<close> the branch for a missing cell reads the variable \<open>uuid\<close>, which is
  declared nowhere: a ReferenceError.
\<close>

definition updateVal :: "platform \<Rightarrow> state \<Rightarrow> string \<Rightarrow> dataView \<Rightarrow> presInfo \<Rightarrow> state \<times> error option" where
  "updateVal P st characteristicUuid dataView presInfo =
     (case map_of (cells st) characteristicUuid of
        None \<Rightarrow> (st, Some ReferenceError)
      | Some valCell \<Rightarrow>
          (case readValue P dataView presInfo of
             (Inl e, lines) \<Rightarrow> (console_log lines st, Some e)
           | (Inr val, lines) \<Rightarrow>
               let st = console_log lines st in
               (case formatValue P val presInfo of
                  Inl e \<Rightarrow> (st, Some e)
                | Inr val \<Rightarrow>
                    let st = cacheValue st characteristicUuid val;
                        (unitString, lines) = getUnitString presInfo;
                        st = console_log lines st
                    in (st\<lparr>cells :=
                             Map_set characteristicUuid (ToString P val @ '' '' @ unitString)
                               (cells st)\<rparr>,
                        None))))"

definition onNotify :: "platform \<Rightarrow> state \<Rightarrow> string \<Rightarrow> dataView \<Rightarrow> state \<times> error option" where
  "onNotify P st uuid val =
     (case Map_get (presInfoCache st) uuid of
        None \<Rightarrow>
          (console_log
             [[JStr (''Presentation info descriptor not recorded for UUID '' @ [CHR 0x22]),
               JStr uuid, JStr [CHR 0x22]]] st,
           None)
      | Some presInfo \<Rightarrow> updateVal P st uuid val presInfo)"

definition showCharacteristic :: "state \<Rightarrow> string \<Rightarrow> string \<Rightarrow> state" where
  "showCharacteristic st uuid characteristicName = st\<lparr>cells := cells st @ [(uuid, ''No data'')]\<rparr>"

text \<open>
  The two callbacks of \<open>initCharacteristics\<close> that touch the registry. The first runs when
  the presentation descriptor has been read: it returns the state and the descriptor it
  decoded, for which the value is then requested. The second runs when that value has
  been read, and registers the characteristic.
\<close>

definition onPresDescriptorRead :: "state \<Rightarrow> string \<Rightarrow> dataView \<Rightarrow> (state \<times> presInfo option) \<times> error option" where
  "onPresDescriptorRead st uuid presDataView =
     (case readPresInfo presDataView of
        (Inl e, lines) \<Rightarrow> ((console_log lines st, None), Some e)
      | (Inr None, lines) \<Rightarrow> ((console_log lines st, None), None)
      | (Inr (Some presInfo), lines) \<Rightarrow>
          (((console_log lines st)\<lparr>presInfoCache :=
               Map_set uuid presInfo (presInfoCache st)\<rparr>, Some presInfo), None))"

definition onValueRead :: "platform \<Rightarrow> state \<Rightarrow> string \<Rightarrow> string \<Rightarrow> string \<Rightarrow> presInfo \<Rightarrow> dataView \<Rightarrow> state \<times> error option" where
  "onValueRead P st uuid characteristicName serviceName' presInfo valDataView =
     (let characteristicInfo =
            \<lparr>name = characteristicName, serviceName = serviceName', lastEntry = JStr ''''\<rparr>;
          st = st\<lparr>characteristicList :=
                    Map_set uuid characteristicInfo (characteristicList st)\<rparr>;
          st = showCharacteristic st uuid characteristicName
      in case updateVal P st uuid valDataView presInfo of
           (st, Some e) \<Rightarrow> (st, Some e)
         | (st, None) \<Rightarrow>
             (console_log
                [[JStr (''Started notifications for UUID '' @ [CHR 0x22]),
                  JStr uuid, JStr [CHR 0x22]]] st,
              None))"

subsection \<open>Timestamps\<close>

text \<open>What \<open>printTimestamp\<close> reads from the \<open>Date\<close> it creates.\<close>

record date =
  getFullYear :: nat
  getMonth :: nat
  getDate :: nat
  getHours :: nat
  getMinutes :: nat
  getSeconds :: nat
  getMilliseconds :: nat

definition padStart :: "string \<Rightarrow> nat \<Rightarrow> string \<Rightarrow> string" where
  "padStart s maxLength fillString =
     (if maxLength \<le> length s \<or> fillString = [] then s
      else
        let fillLen = maxLength - length s
        in take fillLen (concat (replicate fillLen fillString)) @ s)"

definition doPad :: "nat \<Rightarrow> string" where
  "doPad num = padStart (dec num) 2 (dec 0)"

definition printTimestamp :: "date \<Rightarrow> string" where
  "printTimestamp timestamp =
     (let str = dec (getFullYear timestamp) @ ''/'';
          str = str @ doPad (getMonth timestamp + 1) @ ''/'';
          str = str @ doPad (getDate timestamp) @ '' '';
          str = str @ doPad (getHours timestamp) @ '':'';
          str = str @ doPad (getMinutes timestamp) @ '':'';
          str = str @ doPad (getSeconds timestamp)
      in str)"

subsection \<open>The log accumulator\<close>

definition setInterval :: "state \<Rightarrow> string \<Rightarrow> nat \<times> state" where
  "setInterval st delay =
     (nextTimerId st,
      st\<lparr>intervals := intervals st @ [(nextTimerId st, delay)],
         nextTimerId := nextTimerId st + 1\<rparr>)"

definition clearInterval :: "state \<Rightarrow> nat option \<Rightarrow> state" where
  "clearInterval st handle =
     (case handle of
        None \<Rightarrow> st
      | Some i \<Rightarrow> st\<lparr>intervals := filter (\<lambda>t. fst t \<noteq> i) (intervals st)\<rparr>)"

definition logStart :: "state \<Rightarrow> string \<Rightarrow> state" where
  "logStart st logPeriod =
     (let st = st\<lparr>log' := Map_clear (log' st)\<rparr>;
          (handle, st) = setInterval st logPeriod
      in st\<lparr>logTimer := Some handle\<rparr>)"

text \<open>The row that \<open>updateLog\<close> builds: the last entry of every registered characteristic.\<close>

definition logEntry_of :: "(string, characteristicInfo) Map \<Rightarrow> (string, jsval) Map" where
  "logEntry_of cl =
     fold (\<lambda>(uuid, characteristicInfo) logEntry.
             Map_set uuid (lastEntry characteristicInfo) logEntry) cl []"

definition updateLog :: "state \<Rightarrow> date \<Rightarrow> state" where
  "updateLog st now =
     (let logEntry = logEntry_of (characteristicList st);
          timestamp = printTimestamp now
      in st\<lparr>log' := Map_set timestamp logEntry (log' st)\<rparr>)"

text \<open>
  \<open>printLog\<close>: the three header lines grow over one pass of the registry, then every row
  of the log is appended with a newline before it, and a last newline closes the text.
  The accumulator of the first pass is \<open>(csv, line2, line3, lines logged)\<close>.
\<close>

definition printLog_header ::
    "(string, presInfo) Map \<Rightarrow> (string, characteristicInfo) Map \<Rightarrow>
     string \<times> string \<times> string \<times> logline list" where
  "printLog_header cache cl =
     fold (\<lambda>(uuid, characteristicInfo) (csv, line2, line3, lines).
             let csv = csv @ serviceName characteristicInfo @ '','';
                 line2 = line2 @ name characteristicInfo @ '','';
                 (line3, lines) =
                   (case Map_get cache uuid of
                      Some presInfo \<Rightarrow>
                        (line3 @ fst (getUnitString presInfo),
                         lines @ snd (getUnitString presInfo))
                    | None \<Rightarrow> (line3, lines));
                 line3 = line3 @ '',''
             in (csv, line2, line3, lines))
       cl (''Timestamp,'', '','', '','', [])"

definition printLog_row ::
    "platform \<Rightarrow> (string, characteristicInfo) Map \<Rightarrow> (string, jsval) Map \<Rightarrow> string \<Rightarrow> string" where
  "printLog_row P cl logEntry csv =
     fold (\<lambda>(uuid, characteristicInfo) csv.
             let csv = (case Map_get logEntry uuid of
                          Some v \<Rightarrow> csv @ ToString P v
                        | None \<Rightarrow> csv)
             in csv @ '','')
       cl csv"

definition printLog :: "platform \<Rightarrow> state \<Rightarrow> string \<times> logline list" where
  "printLog P st =
     (let (csv, line2, line3, lines) =
            printLog_header (presInfoCache st) (characteristicList st);
          csv = csv @ [CHR 0x0A] @ line2 @ [CHR 0x0A] @ line3;
          csv = fold (\<lambda>(timestamp, logEntry) csv.
                        printLog_row P (characteristicList st) logEntry
                          (csv @ [CHR 0x0A] @ timestamp @ '',''))
                  (log' st) csv;
          csv = csv @ [CHR 0x0A]
      in (csv, lines))"

definition saveLog :: "state \<Rightarrow> string \<Rightarrow> state" where
  "saveLog st logstr = st\<lparr>saved := saved st @ [logstr]\<rparr>"

definition logStop :: "platform \<Rightarrow> state \<Rightarrow> state" where
  "logStop P st =
     (let st = clearInterval st (logTimer st)
      in if Map_size (log' st) > 0 then
           let (logstr, lines) = printLog P st;
               st = console_log lines st
           in saveLog st logstr
         else st)"

text \<open>The state when the page has loaded.\<close>

definition initial_state :: state where
  "initial_state =
     \<lparr>presInfoCache = [], characteristicList = [], log' = [], logTimer = None,
      intervals = [], nextTimerId = 0, cells = [], console = [], saved = []\<rparr>"

subsection \<open>Events\<close>

text \<open>
  The page is driven by events, one handler at a time: a presentation descriptor or a
  first value arrives, a notification arrives, the log timer ticks, logging is started
  or stopped. An exception leaves a handler where it is thrown, and the state stays as
  the handler left it.
\<close>

datatype event =
    PresDescriptorRead string dataView
  | ValueRead string string string presInfo dataView
  | Notify string dataView
  | Tick date
  | LogStart string
  | LogStop

fun step :: "platform \<Rightarrow> state \<Rightarrow> event \<Rightarrow> state" where
  "step P st (PresDescriptorRead uuid presDataView) =
     fst (fst (onPresDescriptorRead st uuid presDataView))"
| "step P st (ValueRead uuid characteristicName serviceName' presInfo valDataView) =
     fst (onValueRead P st uuid characteristicName serviceName' presInfo valDataView)"
| "step P st (Notify uuid val) = fst (onNotify P st uuid val)"
| "step P st (Tick now) = updateLog st now"
| "step P st (LogStart logPeriod) = logStart st logPeriod"
| "step P st LogStop = logStop P st"

definition run :: "platform \<Rightarrow> state \<Rightarrow> event list \<Rightarrow> state" where
  "run P st evs = foldl (step P) st evs"

text \<open>The identifiers registered by a sequence of events, and the timestamps of its ticks.\<close>

fun registered :: "event list \<Rightarrow> string list" where
  "registered [] = []"
| "registered (ValueRead uuid characteristicName serviceName' presInfo valDataView # evs) =
     uuid # registered evs"
| "registered (ev # evs) = registered evs"

fun ticked :: "event list \<Rightarrow> string list" where
  "ticked [] = []"
| "ticked (Tick now # evs) = printTimestamp now # ticked evs"
| "ticked (ev # evs) = ticked evs"

fun is_LogStart :: "event \<Rightarrow> bool" where
  "is_LogStart (LogStart logPeriod) = True"
| "is_LogStart ev = False"

text \<open>The elements of a list in the order of their first occurrence.\<close>

primrec first_seen :: "'a list \<Rightarrow> 'a list" where
  "first_seen [] = []"
| "first_seen (x # xs) = x # filter (\<lambda>y. y \<noteq> x) (first_seen xs)"

section \<open>The codec of the second version\<close>

text \<open>
  The file \<open>part_000\<close> (Smart Glove Demo v1.0) holds a later version of the page. Its
  four codec functions differ from those above in one point: the getters of one byte are
  called without the endianness argument.
\<close>

definition readPresInfo_v1 :: "dataView \<Rightarrow> (error + presInfo option) \<times> logline list" where
  "readPresInfo_v1 dataView =
     (if byteLength dataView < PRES_DESCRIPTOR_LENGTH then
        (Inr None,
         [[JStr ''Characteristic presentation descriptor received was in invalid format'']])
      else
        (case getUint8 dataView 0 None of
           Inl e \<Rightarrow> (Inl e, [])
         | Inr fmt \<Rightarrow>
             (case getInt8 dataView 1 None of
                Inl e \<Rightarrow> (Inl e, [])
              | Inr ex \<Rightarrow>
                  (case getUint16 dataView 2 (Some IS_LITTLE_ENDIAN) of
                     Inl e \<Rightarrow> (Inl e, [])
                   | Inr u \<Rightarrow>
                       (Inr (Some \<lparr>format = fmt, exponent = ex, unit = u\<rparr>), [])))))"

definition readValue_v1 :: "platform \<Rightarrow> dataView \<Rightarrow> presInfo \<Rightarrow> (error + jsval) \<times> logline list" where
  "readValue_v1 P dataView presInfo =
     (case
        (if format presInfo = BLE_FORMAT_BOOLEAN then
           Some (1, \<lambda>x. map_sum id (\<lambda>v. JBool (v \<noteq> 0)) (getUint8 x 0 None))
         else if format presInfo = BLE_FORMAT_UINT8 then
           Some (1, \<lambda>x. map_sum id JInt (getUint8 x 0 None))
         else if format presInfo = BLE_FORMAT_UINT16 then
           Some (2, \<lambda>x. map_sum id JInt (getUint16 x 0 (Some IS_LITTLE_ENDIAN)))
         else if format presInfo = BLE_FORMAT_UINT32 then
           Some (4, \<lambda>x. map_sum id JInt (getUint32 x 0 (Some IS_LITTLE_ENDIAN)))
         else if format presInfo = BLE_FORMAT_SINT8 then
           Some (1, \<lambda>x. map_sum id JInt (getInt8 x 0 None))
         else if format presInfo = BLE_FORMAT_SINT16 then
           Some (2, \<lambda>x. map_sum id JInt (getInt16 x 0 (Some IS_LITTLE_ENDIAN)))
         else if format presInfo = BLE_FORMAT_SINT32 then
           Some (4, \<lambda>x. map_sum id JInt (getInt32 x 0 (Some IS_LITTLE_ENDIAN)))
         else if format presInfo = BLE_FORMAT_FLOAT32 then
           Some (4, \<lambda>x. map_sum id JNum (getFloat32 x 0 (Some IS_LITTLE_ENDIAN)))
         else None)
      of
        None \<Rightarrow> (Inr (JInt 0), [])
      | Some (len, decodeFunc) \<Rightarrow>
          if byteLength dataView < len then
            (Inr (JInt 0),
             [[JStr ''Characteristic value length does not match format specified in client presentation descriptor'']])
          else
            (case decodeFunc dataView of
               Inl e \<Rightarrow> (Inl e, [])
             | Inr rawVal \<Rightarrow>
                 if format presInfo = BLE_FORMAT_BOOLEAN then (Inr rawVal, [])
                 else
                   let scaleFactor =
                         Number_exponentiate P (Finite 10) (Finite (of_int (exponent presInfo)))
                   in (Inr (JNum (Number_multiply P (ToNumber P rawVal) scaleFactor)), [])))"

definition formatValue_v1 :: "platform \<Rightarrow> jsval \<Rightarrow> presInfo \<Rightarrow> error + jsval" where
  "formatValue_v1 P val presInfo =
     (if format presInfo = BLE_FORMAT_BOOLEAN then Inr val
      else
        let numDecimals = - exponent presInfo;
            numDecimals =
              (if numDecimals < 0 then 0
               else if numDecimals > 100 then 100
               else numDecimals)
        in toFixed P val numDecimals)"

definition getUnitString_v1 :: "presInfo \<Rightarrow> string \<times> logline list" where
  "getUnitString_v1 presInfo =
     (case Map_get BLE_UNITS (unit presInfo) of
        Some label \<Rightarrow> (label, [])
      | None \<Rightarrow>
          ('''',
           [[JStr (''Unknown BLE unit definition '' @ [CHR 0x22]),
             JInt (unit presInfo),
             JStr [CHR 0x22]]]))"

section \<open>The log accumulator of the second version\<close>

text \<open>
  In \<open>part_000\<close> the registry is \<open>readCharacteristicList\<close>: its records carry the
  presentation record, and there is no cache beside it. \<open>logStart\<close>, \<open>logStop\<close>,
  \<open>updateLog\<close> and \<open>printLog\<close> read and write that state;
  \<open>writeCharacteristicList\<close>, which they never touch, is left out.
\<close>

record characteristicInfo_v1 =
  name_v1 :: string
  serviceName_v1 :: string
  presInfo_v1 :: presInfo
  lastEntry_v1 :: jsval

record state_v1 =
  readCharacteristicList :: "(string, characteristicInfo_v1) Map"
  log_v1 :: "(string, (string, jsval) Map) Map"
  logTimer_v1 :: "nat option"
  intervals_v1 :: "(nat \<times> string) list"
  nextTimerId_v1 :: nat
  cells_v1 :: "(string \<times> string) list"
  console_v1 :: "logline list"
  saved_v1 :: "string list"

definition console_log_v1 :: "logline list \<Rightarrow> state_v1 \<Rightarrow> state_v1" where
  "console_log_v1 lines st = st\<lparr>console_v1 := console_v1 st @ lines\<rparr>"

definition setInterval_v1 :: "state_v1 \<Rightarrow> string \<Rightarrow> nat \<times> state_v1" where
  "setInterval_v1 st delay =
     (nextTimerId_v1 st,
      st\<lparr>intervals_v1 := intervals_v1 st @ [(nextTimerId_v1 st, delay)],
         nextTimerId_v1 := nextTimerId_v1 st + 1\<rparr>)"

definition clearInterval_v1 :: "state_v1 \<Rightarrow> nat option \<Rightarrow> state_v1" where
  "clearInterval_v1 st handle =
     (case handle of
        None \<Rightarrow> st
      | Some i \<Rightarrow> st\<lparr>intervals_v1 := filter (\<lambda>t. fst t \<noteq> i) (intervals_v1 st)\<rparr>)"

definition logStart_v1 :: "state_v1 \<Rightarrow> string \<Rightarrow> state_v1" where
  "logStart_v1 st logPeriod =
     (let st = st\<lparr>log_v1 := Map_clear (log_v1 st)\<rparr>;
          (handle, st) = setInterval_v1 st logPeriod
      in st\<lparr>logTimer_v1 := Some handle\<rparr>)"

definition logEntry_of_v1 :: "(string, characteristicInfo_v1) Map \<Rightarrow> (string, jsval) Map" where
  "logEntry_of_v1 cl =
     fold (\<lambda>(uuid, characteristicInfo) logEntry.
             Map_set uuid (lastEntry_v1 characteristicInfo) logEntry) cl []"

definition updateLog_v1 :: "state_v1 \<Rightarrow> date \<Rightarrow> state_v1" where
  "updateLog_v1 st now =
     (let logEntry = logEntry_of_v1 (readCharacteristicList st);
          timestamp = printTimestamp now
      in st\<lparr>log_v1 := Map_set timestamp logEntry (log_v1 st)\<rparr>)"

definition printLog_header_v1 ::
    "(string, characteristicInfo_v1) Map \<Rightarrow> string \<times> string \<times> string \<times> logline list" where
  "printLog_header_v1 cl =
     fold (\<lambda>(uuid, characteristicInfo) (csv, line2, line3, lines).
             let csv = csv @ serviceName_v1 characteristicInfo @ '','';
                 line2 = line2 @ name_v1 characteristicInfo @ '','';
                 (line3, lines) =
                   (case Map_get cl uuid of
                      Some charInfo \<Rightarrow>
                        (line3 @ fst (getUnitString_v1 (presInfo_v1 charInfo)),
                         lines @ snd (getUnitString_v1 (presInfo_v1 charInfo)))
                    | None \<Rightarrow> (line3, lines));
                 line3 = line3 @ '',''
             in (csv, line2, line3, lines))
       cl (''Timestamp,'', '','', '','', [])"

definition printLog_row_v1 ::
    "platform \<Rightarrow> (string, characteristicInfo_v1) Map \<Rightarrow> (string, jsval) Map \<Rightarrow> string \<Rightarrow> string" where
  "printLog_row_v1 P cl logEntry csv =
     fold (\<lambda>(uuid, characteristicInfo) csv.
             let csv = (case Map_get logEntry uuid of
                          Some v \<Rightarrow> csv @ ToString P v
                        | None \<Rightarrow> csv)
             in csv @ '','')
       cl csv"

definition printLog_v1 :: "platform \<Rightarrow> state_v1 \<Rightarrow> string \<times> logline list" where
  "printLog_v1 P st =
     (let (csv, line2, line3, lines) = printLog_header_v1 (readCharacteristicList st);
          csv = csv @ [CHR 0x0A] @ line2 @ [CHR 0x0A] @ line3;
          csv = fold (\<lambda>(timestamp, logEntry) csv.
                        printLog_row_v1 P (readCharacteristicList st) logEntry
                          (csv @ [CHR 0x0A] @ timestamp @ '',''))
                  (log_v1 st) csv;
          csv = csv @ [CHR 0x0A]
      in (csv, lines))"

definition saveLog_v1 :: "state_v1 \<Rightarrow> string \<Rightarrow> state_v1" where
  "saveLog_v1 st logstr = st\<lparr>saved_v1 := saved_v1 st @ [logstr]\<rparr>"

definition logStop_v1 :: "platform \<Rightarrow> state_v1 \<Rightarrow> state_v1" where
  "logStop_v1 P st =
     (let st = clearInterval_v1 st (logTimer_v1 st)
      in if Map_size (log_v1 st) > 0 then
           let (logstr, lines) = printLog_v1 P st;
               st = console_log_v1 lines st
           in saveLog_v1 st logstr
         else st)"

text \<open>
  The state of \<open>glove.js\<close> that holds the same data: the presentation records of the
  registry make up the cache.
\<close>

definition glove_state :: "state_v1 \<Rightarrow> state" where
  "glove_state st =
     \<lparr>presInfoCache =
        map (\<lambda>(uuid, charInfo). (uuid, presInfo_v1 charInfo)) (readCharacteristicList st),
      characteristicList =
        map (\<lambda>(uuid, charInfo).
               (uuid, \<lparr>name = name_v1 charInfo, serviceName = serviceName_v1 charInfo,
                       lastEntry = lastEntry_v1 charInfo\<rparr>))
          (readCharacteristicList st),
      log' = log_v1 st, logTimer = logTimer_v1 st, intervals = intervals_v1 st,
      nextTimerId = nextTimerId_v1 st, cells = cells_v1 st, console = console_v1 st,
      saved = saved_v1 st\<rparr>"

section \<open>A host for concrete inputs\<close>

text \<open>
  Where a theorem is applied to a concrete input, the host computes products and powers
  of finite Numbers without rounding (a product with an infinity or with not-a-number is
  that of IEEE-754), and prints a finite Number as a fraction of two integers.
\<close>

definition unrounded_power :: "jsnum \<Rightarrow> jsnum \<Rightarrow> jsnum" where
  "unrounded_power b e =
     (case (b, e) of
        (Finite x, Finite y) \<Rightarrow>
          if y = of_int \<lfloor>y\<rfloor> \<and> (x \<noteq> 0 \<or> y \<ge> 0) then
            Finite (if y \<ge> 0 then x ^ nat \<lfloor>y\<rfloor> else 1 / x ^ nat (- \<lfloor>y\<rfloor>))
          else NaN
      | _ \<Rightarrow> NaN)"

fun unrounded_times :: "jsnum \<Rightarrow> jsnum \<Rightarrow> jsnum" where
  "unrounded_times (Finite x) (Finite y) = Finite (x * y)"
| "unrounded_times NaN b = NaN"
| "unrounded_times a NaN = NaN"
| "unrounded_times (Finite x) b =
     (if x = 0 then NaN
      else if (x > 0) = (b = PosInfinity) then PosInfinity else NegInfinity)"
| "unrounded_times a (Finite y) =
     (if y = 0 then NaN
      else if (y > 0) = (a = PosInfinity) then PosInfinity else NegInfinity)"
| "unrounded_times a b = (if a = b then PosInfinity else NegInfinity)"

definition fraction_string :: "rat \<Rightarrow> string" where
  "fraction_string r =
     (let (p, q) = quotient_of r in dec (nat p) @ ''/'' @ dec (nat q))"

definition unrounded_platform :: platform where
  "unrounded_platform =
     \<lparr>Number_exponentiate = unrounded_power,
      Number_multiply = unrounded_times,
      Number_toString_finite = fraction_string,
      StringToNumber = (\<lambda>s. NaN)\<rparr>"

text \<open>
  A session on that host: a battery level (unsigned 8-bit, exponent 0, per cent) and a
  temperature (signed 16-bit, exponent -2, degrees Celsius) are discovered with the first
  values 80 and 2345; logging is started; the timer ticks, a notification brings the
  temperature 2346, and the timer ticks again in the same second and once in the next.
\<close>

definition battery_level :: presInfo where
  "battery_level = \<lparr>format = BLE_FORMAT_UINT8, exponent = 0, unit = 0x27AD\<rparr>"

definition temperature :: presInfo where
  "temperature = \<lparr>format = BLE_FORMAT_SINT16, exponent = - 2, unit = 0x272F\<rparr>"

definition tick_at :: "nat \<Rightarrow> nat \<Rightarrow> date" where
  "tick_at s ms =
     \<lparr>getFullYear = 2025, getMonth = 0, getDate = 2, getHours = 3, getMinutes = 4,
      getSeconds = s, getMilliseconds = ms\<rparr>"

definition discovery :: "event list" where
  "discovery =
     [PresDescriptorRead ''2a19'' [0x04, 0x00, 0xAD, 0x27, 0x01, 0x00, 0x00],
      ValueRead ''2a19'' ''Level'' ''Battery'' battery_level [80],
      PresDescriptorRead ''2a6e'' [0x0E, 0xFE, 0x2F, 0x27, 0x01, 0x00, 0x00],
      ValueRead ''2a6e'' ''Temperature'' ''Environmental Sensor'' temperature [0x29, 0x09]]"

definition logging :: "event list" where
  "logging =
     [Tick (tick_at 5 0),
      Notify ''2a6e'' [0x2A, 0x09],
      Tick (tick_at 5 900),
      Tick (tick_at 6 0)]"

definition discovered :: state where
  "discovered = run unrounded_platform initial_state discovery"

definition logged :: state where
  "logged = run unrounded_platform (logStart discovered ''1000'') logging"

section \<open>Reference notions for the statements\<close>

text \<open>
  The little-endian reading of a byte sequence, unsigned and as two's complement, written
  as the sum it denotes; the length each format requires; the raw value of a numeric
  format; and the scaling of a raw value by a power of ten in the host's arithmetic.
\<close>

definition uint_le :: "8 word list \<Rightarrow> int" where
  "uint_le bs = (\<Sum>i<length bs. uint (bs ! i) * 256 ^ i)"

definition sint_le :: "8 word list \<Rightarrow> int" where
  "sint_le bs =
     (if uint_le bs < 2 ^ (8 * length bs - 1) then uint_le bs
      else uint_le bs - 2 ^ (8 * length bs))"

definition required_length :: "int \<Rightarrow> nat option" where
  "required_length fmt =
     (if fmt = BLE_FORMAT_BOOLEAN \<or> fmt = BLE_FORMAT_UINT8 \<or> fmt = BLE_FORMAT_SINT8 then Some 1
      else if fmt = BLE_FORMAT_UINT16 \<or> fmt = BLE_FORMAT_SINT16 then Some 2
      else if fmt = BLE_FORMAT_UINT32 \<or> fmt = BLE_FORMAT_SINT32 \<or> fmt = BLE_FORMAT_FLOAT32
        then Some 4
      else None)"

definition raw_le :: "int \<Rightarrow> 8 word list \<Rightarrow> jsnum" where
  "raw_le fmt bs =
     (if fmt = BLE_FORMAT_UINT8 \<or> fmt = BLE_FORMAT_UINT16 \<or> fmt = BLE_FORMAT_UINT32
        then Finite (of_int (uint_le bs))
      else if fmt = BLE_FORMAT_SINT8 \<or> fmt = BLE_FORMAT_SINT16 \<or> fmt = BLE_FORMAT_SINT32
        then Finite (of_int (sint_le bs))
      else Float32_value (uint_le bs))"

definition times_pow10 :: "platform \<Rightarrow> jsnum \<Rightarrow> int \<Rightarrow> jsval" where
  "times_pow10 P raw e =
     JNum (Number_multiply P raw (Number_exponentiate P (Finite 10) (Finite (of_int e))))"

text \<open>
  The number of decimals of a presentation record; the last \<open>d\<close> decimal digits of a
  number, padded with zeros; and the decimal rendering of \<open>n / 10^d\<close> with exactly \<open>d\<close>
  digits after the point.
\<close>

definition decimals :: "presInfo \<Rightarrow> nat" where
  "decimals presInfo = nat (max 0 (min 100 (- exponent presInfo)))"

primrec digits_fixed :: "nat \<Rightarrow> nat \<Rightarrow> string" where
  "digits_fixed 0 k = []"
| "digits_fixed (Suc d) k = digits_fixed d (k div 10) @ [digit_char (k mod 10)]"

definition fixed_point :: "nat \<Rightarrow> nat \<Rightarrow> string" where
  "fixed_point n d =
     dec (n div 10 ^ d) @ (if d = 0 then [] else ''.'' @ digits_fixed d n)"

text \<open>
  The table that the CSV text holds: a row is its first field and its other fields, each
  followed by a comma; the three header rows and one row for each row of the log, with
  one column for each characteristic of the registry; the text is the rows, each followed
  by a newline. A cell is empty when the log row has no value for the characteristic, and
  a unit label is empty when no presentation record is cached for it.
\<close>

definition csv_row :: "string \<Rightarrow> string list \<Rightarrow> string" where
  "csv_row first cols = first @ '','' @ concat (map (\<lambda>f. f @ '','') cols)"

definition unit_label :: "(string, presInfo) Map \<Rightarrow> string \<Rightarrow> string" where
  "unit_label cache uuid =
     (case Map_get cache uuid of
        Some presInfo \<Rightarrow> fst (getUnitString presInfo)
      | None \<Rightarrow> '''')"

definition unit_warning :: "(string, presInfo) Map \<Rightarrow> string \<Rightarrow> logline list" where
  "unit_warning cache uuid =
     (case Map_get cache uuid of
        Some presInfo \<Rightarrow> snd (getUnitString presInfo)
      | None \<Rightarrow> [])"

definition cell_text :: "platform \<Rightarrow> (string, jsval) Map \<Rightarrow> string \<Rightarrow> string" where
  "cell_text P logEntry uuid =
     (case Map_get logEntry uuid of
        Some v \<Rightarrow> ToString P v
      | None \<Rightarrow> '''')"

definition csv_rows ::
    "platform \<Rightarrow> (string, presInfo) Map \<Rightarrow> (string, characteristicInfo) Map \<Rightarrow>
     (string, (string, jsval) Map) Map \<Rightarrow> string list" where
  "csv_rows P cache cl lg =
     [csv_row ''Timestamp'' (map (\<lambda>(uuid, info). serviceName info) cl),
      csv_row '''' (map (\<lambda>(uuid, info). name info) cl),
      csv_row '''' (map (\<lambda>(uuid, info). unit_label cache uuid) cl)] @
     map (\<lambda>(timestamp, logEntry).
            csv_row timestamp (map (\<lambda>(uuid, info). cell_text P logEntry uuid) cl)) lg"

definition csv_text :: "string list \<Rightarrow> string" where
  "csv_text rows = concat (map (\<lambda>row. row @ [CHR 0x0A]) rows)"

section \<open>Reading bytes\<close>

declare dec.simps [simp del]

lemmas BLE_FORMAT_defs =
  BLE_FORMAT_BOOLEAN_def BLE_FORMAT_UINT8_def BLE_FORMAT_UINT16_def BLE_FORMAT_UINT32_def
  BLE_FORMAT_SINT8_def BLE_FORMAT_SINT16_def BLE_FORMAT_SINT32_def BLE_FORMAT_FLOAT32_def

text \<open>One byte read as two's complement is the signed value of the byte.\<close>

lemma sint_uint8: "sint (b :: 8 word) = (if uint b \<ge> 128 then uint b - 256 else uint b)"
proof -
  have lt: "uint b < 256" using uint_lt2p [of b] by simp
  have ge: "0 \<le> uint b" by simp
  have s: "sint b = (uint b + 128) mod 256 - 128"
    by (simp add: sint_uint signed_take_bit_eq_take_bit_shift take_bit_eq_mod)
  show ?thesis
  proof (cases "uint b \<ge> 128")
    case True
    have e: "uint b + 128 = uint b - 128 + 256" by simp
    have "(uint b + 128) mod 256 = (uint b - 128 + 256) mod 256"
      using arg_cong [OF e, of "\<lambda>x. x mod 256"] .
    also have "\<dots> = (uint b - 128) mod 256" by (simp only: mod_add_self2)
    also have "\<dots> = uint b - 128" using True lt by simp
    finally show ?thesis using True s by simp
  next
    case False
    then have "(uint b + 128) mod 256 = uint b + 128"
      using ge by simp
    then show ?thesis using False s by simp
  qed
qed

lemma RawBytesToInt_1: "RawBytesToInt [b] = sint b"
  by (simp add: RawBytesToInt_def sint_uint8)

lemma list_ge_1: "1 \<le> length xs \<Longrightarrow> \<exists>a r. xs = a # r"
  by (auto simp: Suc_le_length_iff)

lemma list_ge_4: "4 \<le> length xs \<Longrightarrow> \<exists>a b c d r. xs = a # b # c # d # r"
  by (auto simp: numeral_eq_Suc Suc_le_length_iff)

lemma GetViewValue_Cons:
  "GetViewValue (a # r) 0 le (Suc 0) = Inr [a]"
  "GetViewValue (a # b # r) (Suc 0) le (Suc 0) = Inr [b]"
  "GetViewValue (a # b # r) 0 le 2 = Inr (if le then [a, b] else [b, a])"
  "GetViewValue (a # b # c # d # r) 2 le 2 = Inr (if le then [c, d] else [d, c])"
  "GetViewValue (a # b # c # d # r) 0 le 4 = Inr (if le then [a, b, c, d] else [d, c, b, a])"
  by (simp_all add: GetViewValue_def byteLength_def numeral_eq_Suc Let_def)

lemma getters_Cons:
  "getUint8 (a # r) 0 extra = Inr (uint a)"
  "getInt8 (a # r) 0 extra = Inr (sint a)"
  "getInt8 (a # b # r) (Suc 0) extra = Inr (sint b)"
  "getUint16 (a # b # r) 0 (Some True) = Inr (uint a + 256 * uint b)"
  "getUint16 (a # b # c # d # r) 2 (Some True) = Inr (uint c + 256 * uint d)"
  "getUint32 (a # b # c # d # r) 0 (Some True) =
     Inr (uint a + 256 * uint b + 65536 * uint c + 16777216 * uint d)"
  by (simp_all add: getUint8_def getInt8_def getUint16_def getUint32_def GetViewValue_Cons
      ToBoolean_arg_def RawBytesToInt_1)

section \<open>The presentation descriptor decoder\<close>

lemma readPresInfo_short:
  "length dataView < 7 \<Longrightarrow>
   readPresInfo dataView =
     (Inr None,
      [[JStr ''Characteristic presentation descriptor received was in invalid format'']])"
  by (simp add: readPresInfo_def byteLength_def PRES_DESCRIPTOR_LENGTH_def)

lemma readPresInfo_long:
  assumes "7 \<le> length dataView"
  shows "readPresInfo dataView =
        (Inr (Some \<lparr>format = uint (dataView ! 0),
                     exponent = sint (dataView ! 1),
                     unit = uint (dataView ! 2) + 256 * uint (dataView ! 3)\<rparr>), [])"
proof -
  from assms obtain a b c d r where shape: "dataView = a # b # c # d # r"
    using list_ge_4 [of dataView] by auto
  have "\<not> byteLength dataView < PRES_DESCRIPTOR_LENGTH"
    using assms by (simp add: byteLength_def PRES_DESCRIPTOR_LENGTH_def)
  then have "readPresInfo dataView =
      (Inr (Some \<lparr>format = uint a, exponent = sint b, unit = uint c + 256 * uint d\<rparr>), [])"
    unfolding readPresInfo_def shape by (simp add: IS_LITTLE_ENDIAN_def getters_Cons)
  then show ?thesis by (simp add: shape)
qed

text \<open>
  Claim C2. A descriptor of fewer than 7 bytes yields no presentation record: the
  function logs one line and returns undefined, and its caller then leaves the registry
  as it was and asks for no value. A descriptor of at least 7 bytes yields the record
  whose format is byte 0 read unsigned, whose exponent is byte 1 read as two's
  complement, and whose unit is bytes 2 and 3 read as a little-endian unsigned 16-bit
  number; no further byte enters the result, and nothing is logged.
\<close>

theorem readPresInfo_decodes:
  "(length dataView < 7 \<longrightarrow>
      readPresInfo dataView =
        (Inr None,
         [[JStr ''Characteristic presentation descriptor received was in invalid format'']]) \<and>
      onPresDescriptorRead st uuid dataView =
        ((console_log
            [[JStr ''Characteristic presentation descriptor received was in invalid format'']] st,
          None), None)) \<and>
   (7 \<le> length dataView \<longrightarrow>
      readPresInfo dataView =
        (Inr (Some \<lparr>format = uint (dataView ! 0),
                     exponent = sint (dataView ! 1),
                     unit = uint (dataView ! 2) + 256 * uint (dataView ! 3)\<rparr>), []))"
proof (intro conjI impI)
  assume short: "length dataView < 7"
  then show "readPresInfo dataView =
        (Inr None,
         [[JStr ''Characteristic presentation descriptor received was in invalid format'']])"
    by (rule readPresInfo_short)
  then show "onPresDescriptorRead st uuid dataView =
        ((console_log
            [[JStr ''Characteristic presentation descriptor received was in invalid format'']] st,
          None), None)"
    by (simp add: onPresDescriptorRead_def)
next
  assume "7 \<le> length dataView"
  then show "readPresInfo dataView =
        (Inr (Some \<lparr>format = uint (dataView ! 0),
                     exponent = sint (dataView ! 1),
                     unit = uint (dataView ! 2) + 256 * uint (dataView ! 3)\<rparr>), [])"
    by (rule readPresInfo_long)
qed

theorem readPresInfo_decodes_witness:
  "readPresInfo [0x0E, 0xFE] =
     (Inr None,
      [[JStr ''Characteristic presentation descriptor received was in invalid format'']]) \<and>
   presInfoCache (fst (fst (onPresDescriptorRead initial_state ''2a6e'' [0x0E, 0xFE]))) = [] \<and>
   readPresInfo [0x0E, 0xFE, 0x2F, 0x27, 0x01, 0x00, 0x00] =
     (Inr (Some \<lparr>format = 14, exponent = - 2, unit = 0x272F\<rparr>), [])"
  using readPresInfo_decodes [of "[0x0E, 0xFE]" initial_state "''2a6e''"]
    readPresInfo_decodes [of "[0x0E, 0xFE, 0x2F, 0x27, 0x01, 0x00, 0x00]" initial_state "''2a6e''"]
  by (simp add: console_log_def initial_state_def)

section \<open>The value codec\<close>

lemma uint_le_Nil [simp]: "uint_le [] = 0"
  by (simp add: uint_le_def)

lemma uint_le_Cons [simp]: "uint_le (b # bs) = uint b + 256 * uint_le bs"
proof -
  have "uint_le (b # bs) = (\<Sum>i<Suc (length bs). uint ((b # bs) ! i) * 256 ^ i)"
    by (simp add: uint_le_def del: sum.lessThan_Suc)
  also have "\<dots> = uint ((b # bs) ! 0) * 256 ^ 0 +
      (\<Sum>i<length bs. uint ((b # bs) ! Suc i) * 256 ^ Suc i)"
    by (rule sum.lessThan_Suc_shift)
  also have "\<dots> = uint b + 256 * uint_le bs"
    by (simp add: uint_le_def sum_distrib_left mult_ac)
  finally show ?thesis .
qed

lemma RawBytesToUint_le: "RawBytesToUint bs = uint_le bs"
  by (induction bs) simp_all

lemma RawBytesToInt_le: "RawBytesToInt bs = sint_le bs"
  by (auto simp: RawBytesToInt_def sint_le_def RawBytesToUint_le Let_def)

lemma GetViewValue_prefix:
  "n \<le> length view \<Longrightarrow> GetViewValue view 0 True n = Inr (take n view)"
  by (simp add: GetViewValue_def byteLength_def)

lemma getters_prefix:
  "1 \<le> length view \<Longrightarrow> getUint8 view 0 extra = Inr (uint_le (take 1 view))"
  "1 \<le> length view \<Longrightarrow> getInt8 view 0 extra = Inr (sint_le (take 1 view))"
  "2 \<le> length view \<Longrightarrow> getUint16 view 0 (Some True) = Inr (uint_le (take 2 view))"
  "2 \<le> length view \<Longrightarrow> getInt16 view 0 (Some True) = Inr (sint_le (take 2 view))"
  "4 \<le> length view \<Longrightarrow> getUint32 view 0 (Some True) = Inr (uint_le (take 4 view))"
  "4 \<le> length view \<Longrightarrow> getInt32 view 0 (Some True) = Inr (sint_le (take 4 view))"
  "4 \<le> length view \<Longrightarrow>
     getFloat32 view 0 (Some True) = Inr (Float32_value (uint_le (take 4 view)))"
  by (simp_all add: getUint8_def getInt8_def getUint16_def getInt16_def getUint32_def
      getInt32_def getFloat32_def ToBoolean_arg_def RawBytesToUint_le RawBytesToInt_le
      GetViewValue_prefix [where n = 1, simplified] GetViewValue_prefix)

lemma readValue_boolean:
  assumes "format presInfo = BLE_FORMAT_BOOLEAN" "1 \<le> length dataView"
  shows "readValue P dataView presInfo = (Inr (JBool (dataView ! 0 \<noteq> 0)), [])"
proof -
  from assms(2) obtain a r where shape: "dataView = a # r"
    using list_ge_1 [of dataView] by auto
  have "uint a \<noteq> 0 \<longleftrightarrow> a \<noteq> 0"
    by (simp add: uint_0_iff)
  then show ?thesis
    using assms
    by (simp add: readValue_def byteLength_def IS_LITTLE_ENDIAN_def shape getters_Cons)
qed

lemma readValue_numeric:
  assumes "required_length (format presInfo) = Some n" "n \<le> length dataView"
    "format presInfo \<noteq> BLE_FORMAT_BOOLEAN"
  shows "readValue P dataView presInfo =
    (Inr (times_pow10 P (raw_le (format presInfo) (take n dataView)) (exponent presInfo)), [])"
  using assms
  by (auto simp: required_length_def readValue_def byteLength_def IS_LITTLE_ENDIAN_def
      getters_prefix raw_le_def times_pow10_def ToNumber_def BLE_FORMAT_defs
      split: if_splits)

lemma readValue_short:
  assumes "required_length (format presInfo) = Some n" "length dataView < n"
  shows "readValue P dataView presInfo =
    (Inr (JInt 0),
     [[JStr ''Characteristic value length does not match format specified in client presentation descriptor'']])"
  using assms
  by (auto simp: required_length_def readValue_def byteLength_def BLE_FORMAT_defs
      split: if_splits)

lemma readValue_unsupported:
  assumes "required_length (format presInfo) = None"
  shows "readValue P dataView presInfo = (Inr (JInt 0), [])"
  using assms
  by (auto simp: required_length_def readValue_def BLE_FORMAT_defs split: if_splits)

text \<open>
  Claim C1. For each of the seven numeric formats and every buffer at least as long as
  the format requires, \<open>readValue\<close> returns, without throwing and without logging, the
  product computed by the host of the raw value and of the host's \<open>10 ** exponent\<close>; the
  raw value is the little-endian reading (unsigned, two's complement, or binary32) of
  the prefix of the required length. This holds for every integer exponent, the signed
  8-bit range included. For the Boolean format and a buffer of at least one byte the
  result is the truth value of \<open>byte 0 \<noteq> 0\<close>, whatever the exponent.
\<close>

theorem readValue_decodes:
  "(format presInfo \<noteq> BLE_FORMAT_BOOLEAN \<and>
    required_length (format presInfo) = Some n \<and> n \<le> length dataView \<longrightarrow>
      readValue P dataView presInfo =
        (Inr (times_pow10 P (raw_le (format presInfo) (take n dataView)) (exponent presInfo)),
         [])) \<and>
   (format presInfo = BLE_FORMAT_BOOLEAN \<and> 1 \<le> length dataView \<longrightarrow>
      readValue P dataView presInfo = (Inr (JBool (dataView ! 0 \<noteq> 0)), []))"
  using readValue_numeric [of presInfo n dataView P] readValue_boolean [of presInfo dataView P]
  by blast

theorem readValue_decodes_witness:
  "readValue unrounded_platform [0x29, 0x09]
     \<lparr>format = BLE_FORMAT_SINT16, exponent = - 2, unit = 0x272F\<rparr> =
     (Inr (times_pow10 unrounded_platform (Finite 2345) (- 2)), []) \<and>
   readValue unrounded_platform [0xFF, 0x00]
     \<lparr>format = BLE_FORMAT_SINT8, exponent = - 128, unit = 0x2700\<rparr> =
     (Inr (times_pow10 unrounded_platform (Finite (- 1)) (- 128)), []) \<and>
   readValue unrounded_platform [0x02]
     \<lparr>format = BLE_FORMAT_BOOLEAN, exponent = 127, unit = 0x2700\<rparr> =
     (Inr (JBool True), [])"
  using
    readValue_decodes [of "\<lparr>format = BLE_FORMAT_SINT16, exponent = - 2, unit = 0x272F\<rparr>"
      2 "[0x29, 0x09]" unrounded_platform]
    readValue_decodes [of "\<lparr>format = BLE_FORMAT_SINT8, exponent = - 128, unit = 0x2700\<rparr>"
      1 "[0xFF, 0x00]" unrounded_platform]
    readValue_decodes [of "\<lparr>format = BLE_FORMAT_BOOLEAN, exponent = 127, unit = 0x2700\<rparr>"
      1 "[0x02]" unrounded_platform]
  by (simp add: required_length_def raw_le_def sint_le_def BLE_FORMAT_defs)

text \<open>
  Claim C4. For each of the eight supported formats, a buffer shorter than the format
  requires makes \<open>readValue\<close> log one line and return 0; for every other format code it
  returns 0 at once, whatever the length of the buffer, and logs nothing.
\<close>

theorem readValue_zero:
  "(required_length (format presInfo) = Some n \<and> length dataView < n \<longrightarrow>
      readValue P dataView presInfo =
        (Inr (JInt 0),
         [[JStr ''Characteristic value length does not match format specified in client presentation descriptor'']])) \<and>
   (required_length (format presInfo) = None \<longrightarrow>
      readValue P dataView presInfo = (Inr (JInt 0), []))"
  using readValue_short [of presInfo n dataView P] readValue_unsupported [of presInfo P dataView]
  by blast

theorem readValue_zero_witness:
  "readValue unrounded_platform [0x29]
     \<lparr>format = BLE_FORMAT_SINT16, exponent = - 2, unit = 0x272F\<rparr> =
     (Inr (JInt 0),
      [[JStr ''Characteristic value length does not match format specified in client presentation descriptor'']]) \<and>
   readValue unrounded_platform []
     \<lparr>format = BLE_FORMAT_BOOLEAN, exponent = 0, unit = 0x2700\<rparr> =
     (Inr (JInt 0),
      [[JStr ''Characteristic value length does not match format specified in client presentation descriptor'']]) \<and>
   readValue unrounded_platform [0x01, 0x02, 0x03]
     \<lparr>format = 0x19, exponent = 0, unit = 0x2700\<rparr> = (Inr (JInt 0), []) \<and>
   readValue unrounded_platform []
     \<lparr>format = 0x19, exponent = 0, unit = 0x2700\<rparr> = (Inr (JInt 0), [])"
  using
    readValue_zero [of "\<lparr>format = BLE_FORMAT_SINT16, exponent = - 2, unit = 0x272F\<rparr>"
      2 "[0x29]" unrounded_platform]
    readValue_zero [of "\<lparr>format = BLE_FORMAT_BOOLEAN, exponent = 0, unit = 0x2700\<rparr>"
      1 "[]" unrounded_platform]
    readValue_zero [of "\<lparr>format = 0x19, exponent = 0, unit = 0x2700\<rparr>"
      0 "[0x01, 0x02, 0x03]" unrounded_platform]
    readValue_zero [of "\<lparr>format = 0x19, exponent = 0, unit = 0x2700\<rparr>"
      0 "[]" unrounded_platform]
  by (simp add: required_length_def BLE_FORMAT_defs)

section \<open>The two versions of the codec\<close>

lemma getUint8_extra: "getUint8 view byteOffset (Some le) = getUint8 view byteOffset None"
  by (simp add: getUint8_def)

lemma getInt8_extra: "getInt8 view byteOffset (Some le) = getInt8 view byteOffset None"
  by (simp add: getInt8_def)

text \<open>
  Claim C10. The four codec functions of the second version return what those of
  \<open>glove.js\<close> return, on every input: the getters of one byte never read the endianness
  argument that only \<open>glove.js\<close> passes.
\<close>

theorem codec_versions_agree:
  "readPresInfo_v1 = readPresInfo \<and> readValue_v1 = readValue \<and>
   formatValue_v1 = formatValue \<and> getUnitString_v1 = getUnitString"
proof (intro conjI ext)
  fix dataView
  show "readPresInfo_v1 dataView = readPresInfo dataView"
    unfolding readPresInfo_v1_def readPresInfo_def getUint8_extra getInt8_extra
    by (rule refl)
next
  fix P dataView presInfo
  show "readValue_v1 P dataView presInfo = readValue P dataView presInfo"
    unfolding readValue_v1_def readValue_def getUint8_extra getInt8_extra
    by (rule refl)
next
  fix P val presInfo
  show "formatValue_v1 P val presInfo = formatValue P val presInfo"
    by (simp add: formatValue_v1_def formatValue_def)
next
  fix presInfo
  show "getUnitString_v1 presInfo = getUnitString presInfo"
    by (simp add: getUnitString_v1_def getUnitString_def)
qed

section \<open>Fixed-point formatting\<close>

lemma dec_small: "n < 10 \<Longrightarrow> dec n = [digit_char n]"
  by (simp add: dec.simps)

lemma dec_large: "10 \<le> n \<Longrightarrow> dec n = dec (n div 10) @ [digit_char (n mod 10)]"
  by (subst dec.simps) simp

lemma dec_0: "dec 0 = ''0''"
  by (simp add: dec_small digit_char_def)

lemma length_digits_fixed [simp]: "length (digits_fixed d k) = d"
  by (induction d arbitrary: k) simp_all

lemma length_dec_pos: "0 < length (dec n)"
  by (cases "n < 10") (simp_all add: dec_small dec_large)

lemma length_dec_le: "0 < d \<Longrightarrow> length (dec n) \<le> d \<longleftrightarrow> n < 10 ^ d"
proof (induction d arbitrary: n)
  case 0
  then show ?case by simp
next
  case (Suc d)
  show ?case
  proof (cases "n < 10")
    case True
    have "(10::nat) \<le> 10 ^ Suc d" by simp
    with True have "n < 10 ^ Suc d" by linarith
    with True show ?thesis by (simp add: dec_small)
  next
    case False
    then have large: "10 \<le> n" by simp
    show ?thesis
    proof (cases "d = 0")
      case True
      with large length_dec_pos [of "n div 10"] show ?thesis
        by (simp add: dec_large)
    next
      case False
      then have "length (dec (n div 10)) \<le> d \<longleftrightarrow> n div 10 < 10 ^ d"
        using Suc.IH by simp
      moreover have "n div 10 < 10 ^ d \<longleftrightarrow> n < 10 ^ Suc d"
        by (simp add: div_less_iff_less_mult mult.commute)
      ultimately show ?thesis using large by (simp add: dec_large)
    qed
  qed
qed

lemma dec_split: "10 ^ d \<le> n \<Longrightarrow> dec n = dec (n div 10 ^ d) @ digits_fixed d n"
proof (induction d arbitrary: n)
  case 0
  then show ?case by simp
next
  case (Suc d)
  have "(10::nat) \<le> 10 ^ Suc d" by simp
  with Suc.prems have large: "10 \<le> n" by linarith
  from Suc.prems have "10 ^ d \<le> n div 10"
    by (simp add: less_eq_div_iff_mult_less_eq mult.commute)
  then have "dec (n div 10) = dec (n div 10 div 10 ^ d) @ digits_fixed d (n div 10)"
    by (rule Suc.IH)
  moreover have "n div 10 div 10 ^ d = n div 10 ^ Suc d"
    by (simp add: div_mult2_eq)
  ultimately show ?case using large by (simp add: dec_large)
qed

lemma digits_fixed_0: "digits_fixed d 0 = replicate d (CHR ''0'')"
  by (induction d) (simp_all add: digit_char_def replicate_append_same)

lemma dec_pad: "0 < d \<Longrightarrow> n < 10 ^ d \<Longrightarrow>
  replicate (d - length (dec n)) (CHR ''0'') @ dec n = digits_fixed d n"
proof (induction d arbitrary: n)
  case 0
  then show ?case by simp
next
  case (Suc d)
  show ?case
  proof (cases "n < 10")
    case True
    then show ?thesis by (simp add: dec_small digits_fixed_0)
  next
    case False
    then have large: "10 \<le> n" by simp
    from Suc.prems have small: "n div 10 < 10 ^ d"
      by (simp add: div_less_iff_less_mult mult.commute)
    with large have "0 < d" by (cases d) auto
    then have "replicate (d - length (dec (n div 10))) (CHR ''0'') @ dec (n div 10) =
        digits_fixed d (n div 10)"
      using small by (rule Suc.IH)
    then show ?thesis using large by (simp add: dec_large)
  qed
qed

lemma toFixed_digits:
  assumes "0 < f"
  shows "(let m = dec n; k = length m;
              m = (if k \<le> f then replicate (f + 1 - k) (CHR ''0'') @ m else m);
              k = (if k \<le> f then f + 1 else k)
          in take (k - f) m @ ''.'' @ drop (k - f) m) = fixed_point n f"
proof (cases "length (dec n) \<le> f")
  case True
  with assms have small: "n < 10 ^ f" by (simp add: length_dec_le)
  have "f + 1 - length (dec n) = Suc (f - length (dec n))"
    using True by simp
  then have "replicate (f + 1 - length (dec n)) (CHR ''0'') @ dec n =
      CHR ''0'' # digits_fixed f n"
    using dec_pad [OF assms small] by simp
  then show ?thesis
    using True assms small by (simp add: fixed_point_def Let_def dec_0)
next
  case False
  with assms have large: "10 ^ f \<le> n" by (simp add: length_dec_le)
  have split: "dec n = dec (n div 10 ^ f) @ digits_fixed f n"
    using large by (rule dec_split)
  have "length (dec n) - f = length (dec (n div 10 ^ f))"
    by (subst split) simp
  moreover have "take (length (dec (n div 10 ^ f))) (dec n) = dec (n div 10 ^ f)"
    by (subst split) simp
  moreover have "drop (length (dec (n div 10 ^ f))) (dec n) = digits_fixed f n"
    by (subst split) simp
  ultimately show ?thesis
    using False assms by (simp add: fixed_point_def Let_def)
qed

lemma dec_or_zero: "(if k = 0 then ''0'' else dec k) = dec k"
  by (simp add: dec_0)

lemma Number_toFixed_finite:
  assumes "0 \<le> f" "f \<le> 100" "\<bar>r\<bar> < 10 ^ 21"
  shows "Number_toFixed P (Finite r) f =
    Inr ((if r < 0 then ''-'' else '''') @
         fixed_point (nat \<lfloor>\<bar>r\<bar> * 10 ^ nat f + 1 / 2\<rfloor>) (nat f))"
proof -
  have c1: "(f < 0 \<or> f > 100) = False" using assms by simp
  have c2: "(10 ^ 21 \<le> \<bar>r\<bar>) = False" using assms by simp
  show ?thesis
  proof (cases "nat f = 0")
    case True
    then have c3: "(nat f \<noteq> 0) = False" by simp
    show ?thesis
      by (simp only: Number_toFixed_def jsnum.case Let_def c1 c2 c3 if_False dec_or_zero)
        (simp add: fixed_point_def True)
  next
    case False
    then have pos: "0 < nat f" by simp
    from False have c3: "(nat f \<noteq> 0) = True" by simp
    show ?thesis
      by (simp only: Number_toFixed_def jsnum.case Let_def c1 c2 c3 if_False if_True
          dec_or_zero toFixed_digits [OF pos, unfolded Let_def])
  qed
qed


lemma digit_char_in: "k < 10 \<Longrightarrow> digit_char k \<in> set ''0123456789''"
  unfolding digit_char_def by (rule nth_mem) simp

lemma set_dec: "set (dec n) \<subseteq> set ''0123456789''"
proof (induction n rule: dec.induct)
  case (1 n)
  show ?case
  proof (cases "n < 10")
    case True
    then show ?thesis using digit_char_in [of n] by (simp add: dec_small)
  next
    case False
    then have "set (dec (n div 10)) \<subseteq> set ''0123456789''" by (rule 1)
    moreover have "digit_char (n mod 10) \<in> set ''0123456789''"
      by (rule digit_char_in) simp
    ultimately show ?thesis using False by (simp add: dec_large)
  qed
qed

lemma set_digits_fixed: "set (digits_fixed d k) \<subseteq> set ''0123456789''"
proof (induction d arbitrary: k)
  case 0
  show ?case by simp
next
  case (Suc d)
  have "digit_char (k mod 10) \<in> set ''0123456789''"
    by (rule digit_char_in) simp
  with Suc [of "k div 10"] show ?case by simp
qed

lemma formatValue_toFixed:
  "format presInfo \<noteq> BLE_FORMAT_BOOLEAN \<Longrightarrow>
   formatValue P val presInfo = toFixed P val (int (decimals presInfo))"
  by (auto simp: formatValue_def decimals_def Let_def)

lemma decimals_range: "0 \<le> int (decimals presInfo)" "int (decimals presInfo) \<le> 100"
  by (simp_all add: decimals_def)

lemma formatValue_finite:
  assumes "format presInfo \<noteq> BLE_FORMAT_BOOLEAN" "\<bar>r\<bar> < 10 ^ 21"
  shows "formatValue P (JNum (Finite r)) presInfo =
    Inr (JStr ((if r < 0 then ''-'' else '''') @
      fixed_point (nat \<lfloor>\<bar>r\<bar> * 10 ^ decimals presInfo + 1 / 2\<rfloor>) (decimals presInfo)))"
  using Number_toFixed_finite [OF decimals_range assms(2), of P presInfo]
  by (simp add: formatValue_toFixed [OF assms(1)] toFixed_def)

lemma formatValue_not_finite:
  assumes "format presInfo \<noteq> BLE_FORMAT_BOOLEAN"
  shows "formatValue P (JNum NaN) presInfo = Inr (JStr ''NaN'')"
    "formatValue P (JNum PosInfinity) presInfo = Inr (JStr ''Infinity'')"
    "formatValue P (JNum NegInfinity) presInfo = Inr (JStr ''-Infinity'')"
    "10 ^ 21 \<le> \<bar>r\<bar> \<Longrightarrow> formatValue P (JNum (Finite r)) presInfo =
       Inr (JStr ((if r < 0 then ''-'' else '''') @ Number_toString_finite P \<bar>r\<bar>))"
  using decimals_range [of presInfo]
  by (simp_all add: formatValue_toFixed [OF assms] toFixed_def Number_toFixed_def Let_def)

text \<open>
  Claim C3, amended. For the Boolean format \<open>formatValue\<close> returns its input unchanged,
  whatever the exponent. For every other format and every finite Number of magnitude
  below \<open>10^21\<close> it returns the sign, the digits of the integer part and, when the number
  \<open>d = max(0, min(100, -exponent))\<close> of decimals is not zero, a point and exactly \<open>d\<close>
  digits, of the integer \<open>n\<close> nearest to the magnitude times \<open>10^d\<close> (the larger one on a
  tie). Not-a-number and the infinities are returned as \<open>NaN\<close>, \<open>Infinity\<close> and
  \<open>-Infinity\<close>, and a finite Number of magnitude \<open>10^21\<close> or more as the host's
  Number-to-String conversion writes it: the sign and the host's digits of the magnitude.
\<close>

theorem formatValue_renders:
  "(format presInfo = BLE_FORMAT_BOOLEAN \<longrightarrow> formatValue P val presInfo = Inr val) \<and>
   (format presInfo \<noteq> BLE_FORMAT_BOOLEAN \<and> \<bar>r\<bar> < 10 ^ 21 \<and>
    d = decimals presInfo \<and> n = nat \<lfloor>\<bar>r\<bar> * 10 ^ d + 1 / 2\<rfloor> \<longrightarrow>
      formatValue P (JNum (Finite r)) presInfo =
        Inr (JStr ((if r < 0 then ''-'' else '''') @ dec (n div 10 ^ d) @
                   (if d = 0 then [] else ''.'' @ digits_fixed d n))) \<and>
      length (digits_fixed d n) = d \<and>
      set (dec (n div 10 ^ d) @ digits_fixed d n) \<subseteq> set ''0123456789'') \<and>
   (format presInfo \<noteq> BLE_FORMAT_BOOLEAN \<longrightarrow>
      formatValue P (JNum NaN) presInfo = Inr (JStr ''NaN'') \<and>
      formatValue P (JNum PosInfinity) presInfo = Inr (JStr ''Infinity'') \<and>
      formatValue P (JNum NegInfinity) presInfo = Inr (JStr ''-Infinity'')) \<and>
   (format presInfo \<noteq> BLE_FORMAT_BOOLEAN \<and> 10 ^ 21 \<le> \<bar>r\<bar> \<longrightarrow>
      formatValue P (JNum (Finite r)) presInfo = Inr (JStr (NumberToString P (Finite r))) \<and>
      NumberToString P (Finite r) =
        (if r < 0 then ''-'' else '''') @ Number_toString_finite P \<bar>r\<bar>)"
proof (intro conjI impI)
  assume "format presInfo = BLE_FORMAT_BOOLEAN"
  then show "formatValue P val presInfo = Inr val"
    by (simp add: formatValue_def)
next
  assume a: "format presInfo \<noteq> BLE_FORMAT_BOOLEAN \<and> \<bar>r\<bar> < 10 ^ 21 \<and>
    d = decimals presInfo \<and> n = nat \<lfloor>\<bar>r\<bar> * 10 ^ d + 1 / 2\<rfloor>"
  then show "formatValue P (JNum (Finite r)) presInfo =
        Inr (JStr ((if r < 0 then ''-'' else '''') @ dec (n div 10 ^ d) @
                   (if d = 0 then [] else ''.'' @ digits_fixed d n)))"
    using formatValue_finite [of presInfo r P] by (simp add: fixed_point_def)
  show "length (digits_fixed d n) = d" by simp
  show "set (dec (n div 10 ^ d) @ digits_fixed d n) \<subseteq> set ''0123456789''"
    using set_dec [of "n div 10 ^ d"] set_digits_fixed [of d n] by simp
next
  assume "format presInfo \<noteq> BLE_FORMAT_BOOLEAN"
  then show "formatValue P (JNum NaN) presInfo = Inr (JStr ''NaN'')"
    "formatValue P (JNum PosInfinity) presInfo = Inr (JStr ''Infinity'')"
    "formatValue P (JNum NegInfinity) presInfo = Inr (JStr ''-Infinity'')"
    by (rule formatValue_not_finite)+
next
  assume b: "format presInfo \<noteq> BLE_FORMAT_BOOLEAN \<and> 10 ^ 21 \<le> \<bar>r\<bar>"
  then have "r \<noteq> 0" by auto
  then show s: "NumberToString P (Finite r) =
      (if r < 0 then ''-'' else '''') @ Number_toString_finite P \<bar>r\<bar>"
    by (simp add: NumberToString_def abs_if)
  show "formatValue P (JNum (Finite r)) presInfo = Inr (JStr (NumberToString P (Finite r)))"
    unfolding s using b formatValue_not_finite(4) [of presInfo r P] by simp
qed

text \<open>
  Five inputs: a Boolean with a nonzero exponent; the reading 1234 scaled by \<open>10^-2\<close>;
  the reading 5 with exponent 0; a small negative value; and the largest unsigned 32-bit
  reading scaled by \<open>10^12\<close>, which is above \<open>10^21\<close>.
\<close>

lemma formatValue_examples:
  "decimals \<lparr>format = BLE_FORMAT_UINT16, exponent = - 2, unit = 0x2700\<rparr> = 2"
  "decimals \<lparr>format = BLE_FORMAT_UINT8, exponent = 0, unit = 0x27AD\<rparr> = 0"
  "nat \<lfloor>\<bar>1234 / 100 :: rat\<bar> * 10 ^ 2 + 1 / 2\<rfloor> = 1234"
  "nat \<lfloor>\<bar>5 :: rat\<bar> * 10 ^ 0 + 1 / 2\<rfloor> = 5"
  "nat \<lfloor>\<bar>- 1 / 1000 :: rat\<bar> * 10 ^ 2 + 1 / 2\<rfloor> = 0"
  "dec (1234 div 10 ^ 2) @ (if (2::nat) = 0 then [] else ''.'' @ digits_fixed 2 1234) = ''12.34''"
  "dec (5 div 10 ^ 0) @ (if (0::nat) = 0 then [] else ''.'' @ digits_fixed 0 5) = ''5''"
  "dec (0 div 10 ^ 2) @ (if (2::nat) = 0 then [] else ''.'' @ digits_fixed 2 0) = ''0.00''"
  by (simp_all add: decimals_def) code_simp+

theorem formatValue_renders_witness:
  "formatValue unrounded_platform (JBool True)
     \<lparr>format = BLE_FORMAT_BOOLEAN, exponent = 3, unit = 0x2700\<rparr> = Inr (JBool True) \<and>
   formatValue unrounded_platform (JNum (Finite (1234 / 100)))
     \<lparr>format = BLE_FORMAT_UINT16, exponent = - 2, unit = 0x2700\<rparr> = Inr (JStr ''12.34'') \<and>
   formatValue unrounded_platform (JNum (Finite 5))
     \<lparr>format = BLE_FORMAT_UINT8, exponent = 0, unit = 0x27AD\<rparr> = Inr (JStr ''5'') \<and>
   formatValue unrounded_platform (JNum (Finite (- 1 / 1000)))
     \<lparr>format = BLE_FORMAT_UINT16, exponent = - 2, unit = 0x2700\<rparr> = Inr (JStr ''-0.00'') \<and>
   formatValue unrounded_platform (JNum (Finite (4294967295 * 10 ^ 12)))
     \<lparr>format = BLE_FORMAT_UINT32, exponent = 12, unit = 0x2700\<rparr> =
     Inr (JStr (NumberToString unrounded_platform (Finite (4294967295 * 10 ^ 12))))"
  using
    formatValue_renders [of "\<lparr>format = BLE_FORMAT_BOOLEAN, exponent = 3, unit = 0x2700\<rparr>"
      unrounded_platform "JBool True" 0 0 0]
    formatValue_renders [of "\<lparr>format = BLE_FORMAT_UINT16, exponent = - 2, unit = 0x2700\<rparr>"
      unrounded_platform "JBool True" "1234 / 100" 2 1234]
    formatValue_renders [of "\<lparr>format = BLE_FORMAT_UINT8, exponent = 0, unit = 0x27AD\<rparr>"
      unrounded_platform "JBool True" 5 0 5]
    formatValue_renders [of "\<lparr>format = BLE_FORMAT_UINT16, exponent = - 2, unit = 0x2700\<rparr>"
      unrounded_platform "JBool True" "- 1 / 1000" 2 0]
    formatValue_renders [of "\<lparr>format = BLE_FORMAT_UINT32, exponent = 12, unit = 0x2700\<rparr>"
      unrounded_platform "JBool True" "4294967295 * 10 ^ 12" 0 0]
  apply (simp only: formatValue_examples)
  apply (simp add: BLE_FORMAT_defs)
  done

text \<open>
  The claim as stated fails on a Number that is not finite: the bytes 00 00 80 7F are the
  binary32 infinity, which stays infinite when scaled, and which is formatted as
  \<open>Infinity\<close>, with no decimal point, where two decimals were claimed.
\<close>

lemma Float32_infinity: "Float32_value (uint_le [0x00, 0x00, 0x80, 0x7F]) = PosInfinity"
  by (simp add: Float32_value_def)

theorem formatValue_infinity_counterexample:
  "readValue unrounded_platform [0x00, 0x00, 0x80, 0x7F]
     \<lparr>format = BLE_FORMAT_FLOAT32, exponent = - 2, unit = 0x2700\<rparr> =
     (Inr (JNum PosInfinity), []) \<and>
   formatValue unrounded_platform (JNum PosInfinity)
     \<lparr>format = BLE_FORMAT_FLOAT32, exponent = - 2, unit = 0x2700\<rparr> =
     Inr (JStr ''Infinity'') \<and>
   decimals \<lparr>format = BLE_FORMAT_FLOAT32, exponent = - 2, unit = 0x2700\<rparr> = 2 \<and>
   CHR ''.'' \<notin> set ''Infinity''"
proof -
  have "readValue unrounded_platform [0x00, 0x00, 0x80, 0x7F]
     \<lparr>format = BLE_FORMAT_FLOAT32, exponent = - 2, unit = 0x2700\<rparr> =
     (Inr (times_pow10 unrounded_platform
        (raw_le BLE_FORMAT_FLOAT32 (take 4 [0x00, 0x00, 0x80, 0x7F])) (- 2)), [])"
    using readValue_numeric [of "\<lparr>format = BLE_FORMAT_FLOAT32, exponent = - 2, unit = 0x2700\<rparr>"
        4 "[0x00, 0x00, 0x80, 0x7F]" unrounded_platform]
    by (simp add: required_length_def BLE_FORMAT_defs)
  moreover have "raw_le BLE_FORMAT_FLOAT32 (take 4 [0x00, 0x00, 0x80, 0x7F]) = PosInfinity"
    using Float32_infinity by (simp add: raw_le_def BLE_FORMAT_defs)
  moreover have "times_pow10 unrounded_platform PosInfinity (- 2) = JNum PosInfinity"
    by (simp add: times_pow10_def unrounded_platform_def unrounded_power_def)
  ultimately show ?thesis
    using formatValue_not_finite(2)
      [of "\<lparr>format = BLE_FORMAT_FLOAT32, exponent = - 2, unit = 0x2700\<rparr>" unrounded_platform]
    by (simp add: decimals_def BLE_FORMAT_defs)
qed

section \<open>Units\<close>

lemma getUnitString_known:
  "map_of BLE_UNITS (unit presInfo) = Some label \<Longrightarrow> getUnitString presInfo = (label, [])"
  by (simp add: getUnitString_def Map_get_def)

lemma getUnitString_unknown:
  "unit presInfo \<notin> set (map fst BLE_UNITS) \<Longrightarrow>
   getUnitString presInfo =
     ('''',
      [[JStr (''Unknown BLE unit definition '' @ [CHR 0x22]), JInt (unit presInfo),
        JStr [CHR 0x22]]])"
proof -
  assume "unit presInfo \<notin> set (map fst BLE_UNITS)"
  then have "map_of BLE_UNITS (unit presInfo) = None"
    by (simp add: map_of_eq_None_iff)
  then show ?thesis
    by (simp add: getUnitString_def Map_get_def)
qed

text \<open>
  Claim C5 at the code \<open>0x272F\<close>: the label the table holds is the five bytes
  C3 82 C2 B0 43, the UTF-8 encoding of the three characters U+00C2, U+00B0, C, and not the
  three bytes C2 B0 43 that encode the degree sign followed by C.
\<close>

theorem getUnitString_celsius:
  "getUnitString \<lparr>format = BLE_FORMAT_SINT16, exponent = - 2, unit = 0x272F\<rparr> =
     ([CHR 0xC3, CHR 0x82, CHR 0xC2, CHR 0xB0, CHR ''C''], []) \<and>
   [CHR 0xC3, CHR 0x82, CHR 0xC2, CHR 0xB0, CHR ''C''] \<noteq> [CHR 0xC2, CHR 0xB0, CHR ''C'']"
  by (simp add: getUnitString_def Map_get_def BLE_UNITS_def)

section \<open>The registry and the log\<close>

subsection \<open>Map\<close>

lemma keys_Map_set:
  "map fst (Map_set k v m) = (if k \<in> set (map fst m) then map fst m else map fst m @ [k])"
  by (induction m) auto

lemma map_of_Map_set: "map_of (Map_set k v m) = (map_of m)(k \<mapsto> v)"
  by (induction m) (auto simp: fun_eq_iff)

lemma length_Map_set:
  "length (Map_set k v m) = (if k \<in> set (map fst m) then length m else Suc (length m))"
  by (induction m) auto

subsection \<open>First occurrences\<close>

lemma set_first_seen [simp]: "set (first_seen xs) = set xs"
  by (induction xs) auto

lemma distinct_first_seen [simp]: "distinct (first_seen xs)"
  by (induction xs) auto

lemma first_seen_distinct: "distinct xs \<Longrightarrow> first_seen xs = xs"
  by (induction xs) (auto simp: filter_id_conv)

lemma first_seen_snoc:
  "first_seen (xs @ [k]) = (if k \<in> set xs then first_seen xs else first_seen xs @ [k])"
  by (induction xs) auto

lemma registered_append: "registered (evs @ evs') = registered evs @ registered evs'"
  by (induction evs rule: registered.induct) simp_all

lemma ticked_append: "ticked (evs @ evs') = ticked evs @ ticked evs'"
  by (induction evs rule: ticked.induct) simp_all

lemma run_snoc: "run P st (evs @ [ev]) = step P (run P st evs) ev"
  by (simp add: run_def)

lemma run_append: "run P st (evs @ evs') = run P (run P st evs) evs'"
  by (simp add: run_def)

lemma run_Nil: "run P st [] = st"
  by (simp add: run_def)

subsection \<open>What the handlers change\<close>

lemma console_log_fields [simp]:
  "characteristicList (console_log lines st) = characteristicList st"
  "presInfoCache (console_log lines st) = presInfoCache st"
  "log' (console_log lines st) = log' st"
  "cells (console_log lines st) = cells st"
  "logTimer (console_log lines st) = logTimer st"
  "intervals (console_log lines st) = intervals st"
  "saved (console_log lines st) = saved st"
  by (simp_all add: console_log_def)

lemma cacheValue_fields [simp]:
  "presInfoCache (cacheValue st u v) = presInfoCache st"
  "log' (cacheValue st u v) = log' st"
  "cells (cacheValue st u v) = cells st"
  "logTimer (cacheValue st u v) = logTimer st"
  "intervals (cacheValue st u v) = intervals st"
  "saved (cacheValue st u v) = saved st"
  "console (cacheValue st u v) = console st"
  by (simp_all add: cacheValue_def split: option.split)

lemma cacheValue_keys [simp]:
  "map fst (characteristicList (cacheValue st u v)) = map fst (characteristicList st)"
  by (auto simp: cacheValue_def Map_get_def keys_Map_set map_of_eq_None_iff
      split: option.split)

lemma updateVal_fields [simp]:
  "map fst (characteristicList (fst (updateVal P st u dv p))) = map fst (characteristicList st)"
  "presInfoCache (fst (updateVal P st u dv p)) = presInfoCache st"
  "log' (fst (updateVal P st u dv p)) = log' st"
  "logTimer (fst (updateVal P st u dv p)) = logTimer st"
  "intervals (fst (updateVal P st u dv p)) = intervals st"
  "saved (fst (updateVal P st u dv p)) = saved st"
  by (simp_all add: updateVal_def Let_def split: option.split prod.split sum.split)

lemma onNotify_fields [simp]:
  "map fst (characteristicList (fst (onNotify P st u dv))) = map fst (characteristicList st)"
  "presInfoCache (fst (onNotify P st u dv)) = presInfoCache st"
  "log' (fst (onNotify P st u dv)) = log' st"
  "logTimer (fst (onNotify P st u dv)) = logTimer st"
  "intervals (fst (onNotify P st u dv)) = intervals st"
  "saved (fst (onNotify P st u dv)) = saved st"
  by (simp_all add: onNotify_def split: option.split)

lemma onPresDescriptorRead_fields [simp]:
  "characteristicList (fst (fst (onPresDescriptorRead st u dv))) = characteristicList st"
  "log' (fst (fst (onPresDescriptorRead st u dv))) = log' st"
  "logTimer (fst (fst (onPresDescriptorRead st u dv))) = logTimer st"
  "intervals (fst (fst (onPresDescriptorRead st u dv))) = intervals st"
  "saved (fst (fst (onPresDescriptorRead st u dv))) = saved st"
  by (simp_all add: onPresDescriptorRead_def split: option.split prod.split sum.split)

lemma console_log_Nil [simp]: "console_log [] st = st"
  by (simp add: console_log_def)

lemma onValueRead_state:
  "\<exists>lines. fst (onValueRead P st u n s p dv) =
     console_log lines (fst (updateVal P
       (showCharacteristic
          (st\<lparr>characteristicList :=
             Map_set u \<lparr>name = n, serviceName = s, lastEntry = JStr ''''\<rparr>
               (characteristicList st)\<rparr>) u n) u dv p))"
proof -
  let ?st1 = "showCharacteristic
          (st\<lparr>characteristicList :=
             Map_set u \<lparr>name = n, serviceName = s, lastEntry = JStr ''''\<rparr>
               (characteristicList st)\<rparr>) u n"
  obtain st2 eo where uv: "updateVal P ?st1 u dv p = (st2, eo)"
    by (cases "updateVal P ?st1 u dv p") auto
  show ?thesis
  proof (cases eo)
    case None
    with uv show ?thesis by (auto simp: onValueRead_def Let_def)
  next
    case (Some e)
    with uv have "fst (onValueRead P st u n s p dv) = console_log [] st2"
      by (simp add: onValueRead_def Let_def)
    with uv show ?thesis by (metis fst_conv)
  qed
qed

lemma onValueRead_keys:
  "map fst (characteristicList (fst (onValueRead P st u n s p dv))) =
     (if u \<in> set (map fst (characteristicList st)) then map fst (characteristicList st)
      else map fst (characteristicList st) @ [u])"
proof -
  from onValueRead_state [of P st u n s p dv] obtain lines where
    "fst (onValueRead P st u n s p dv) =
     console_log lines (fst (updateVal P
       (showCharacteristic
          (st\<lparr>characteristicList :=
             Map_set u \<lparr>name = n, serviceName = s, lastEntry = JStr ''''\<rparr>
               (characteristicList st)\<rparr>) u n) u dv p))" ..
  then have "map fst (characteristicList (fst (onValueRead P st u n s p dv))) =
      map fst (Map_set u \<lparr>name = n, serviceName = s, lastEntry = JStr ''''\<rparr>
        (characteristicList st))"
    by (simp add: showCharacteristic_def)
  then show ?thesis by (simp only: keys_Map_set)
qed

lemma onValueRead_fields [simp]:
  "log' (fst (onValueRead P st u n s p dv)) = log' st"
  "logTimer (fst (onValueRead P st u n s p dv)) = logTimer st"
  "intervals (fst (onValueRead P st u n s p dv)) = intervals st"
  "saved (fst (onValueRead P st u n s p dv)) = saved st"
  using onValueRead_state [of P st u n s p dv]
  by (auto simp: showCharacteristic_def)

lemma updateLog_fields [simp]:
  "characteristicList (updateLog st now) = characteristicList st"
  "presInfoCache (updateLog st now) = presInfoCache st"
  "logTimer (updateLog st now) = logTimer st"
  "intervals (updateLog st now) = intervals st"
  "saved (updateLog st now) = saved st"
  "log' (updateLog st now) =
     Map_set (printTimestamp now) (logEntry_of (characteristicList st)) (log' st)"
  by (simp_all add: updateLog_def Let_def)

lemma logStart_fields [simp]:
  "characteristicList (logStart st period) = characteristicList st"
  "presInfoCache (logStart st period) = presInfoCache st"
  "log' (logStart st period) = []"
  "saved (logStart st period) = saved st"
  "logTimer (logStart st period) = Some (nextTimerId st)"
  "intervals (logStart st period) = intervals st @ [(nextTimerId st, period)]"
  by (simp_all add: logStart_def setInterval_def Map_clear_def Let_def)

lemma clearInterval_fields [simp]:
  "characteristicList (clearInterval st h) = characteristicList st"
  "presInfoCache (clearInterval st h) = presInfoCache st"
  "log' (clearInterval st h) = log' st"
  "saved (clearInterval st h) = saved st"
  "logTimer (clearInterval st h) = logTimer st"
  "console (clearInterval st h) = console st"
  by (simp_all add: clearInterval_def split: option.split)

lemma saveLog_fields [simp]:
  "characteristicList (saveLog st str) = characteristicList st"
  "presInfoCache (saveLog st str) = presInfoCache st"
  "log' (saveLog st str) = log' st"
  "logTimer (saveLog st str) = logTimer st"
  "intervals (saveLog st str) = intervals st"
  "saved (saveLog st str) = saved st @ [str]"
  by (simp_all add: saveLog_def)

lemma logStop_fields [simp]:
  "characteristicList (logStop P st) = characteristicList st"
  "presInfoCache (logStop P st) = presInfoCache st"
  "log' (logStop P st) = log' st"
  "logTimer (logStop P st) = logTimer st"
  by (simp_all add: logStop_def Let_def split: prod.split)

lemma step_keys:
  "map fst (characteristicList (step P st ev)) =
     (case registered [ev] of
        [] \<Rightarrow> map fst (characteristicList st)
      | u # us \<Rightarrow>
          if u \<in> set (map fst (characteristicList st)) then map fst (characteristicList st)
          else map fst (characteristicList st) @ [u])"
  by (cases ev) (simp_all add: onValueRead_keys)

lemma run_keys:
  assumes "distinct (map fst (characteristicList st))"
  shows "map fst (characteristicList (run P st evs)) =
    first_seen (map fst (characteristicList st) @ registered evs)"
proof (induction evs rule: rev_induct)
  case Nil
  show ?case using assms by (simp add: run_Nil first_seen_distinct)
next
  case (snoc ev evs)
  show ?case
  proof (cases "registered [ev]")
    case Nil
    then show ?thesis
      using snoc by (simp add: run_snoc step_keys registered_append)
  next
    case (Cons u us)
    then have one: "registered [ev] = [u]"
      by (cases ev) simp_all
    show ?thesis
      using snoc first_seen_snoc [of "map fst (characteristicList st) @ registered evs" u]
      by (simp add: run_snoc step_keys registered_append one)
  qed
qed


subsection \<open>The CSV text\<close>

lemma csv_row_concat:
  "first @ '','' @ concat (map (\<lambda>x. g x @ '','') xs) = csv_row first (map g xs)"
  by (simp add: csv_row_def comp_def)

lemma printLog_header_rows:
  "printLog_header cache cl =
    (csv_row ''Timestamp'' (map (\<lambda>(uuid, info). serviceName info) cl),
     csv_row '''' (map (\<lambda>(uuid, info). name info) cl),
     csv_row '''' (map (\<lambda>(uuid, info). unit_label cache uuid) cl),
     concat (map (\<lambda>(uuid, info). unit_warning cache uuid) cl))"
proof -
  define visit where "visit =
    (\<lambda>(uuid, characteristicInfo :: characteristicInfo) (csv, line2, line3, lines).
             let csv = csv @ serviceName characteristicInfo @ '','';
                 line2 = line2 @ name characteristicInfo @ '','';
                 (line3, lines) =
                   (case Map_get cache uuid of
                      Some presInfo \<Rightarrow>
                        (line3 @ fst (getUnitString presInfo),
                         lines @ snd (getUnitString presInfo))
                    | None \<Rightarrow> (line3, lines));
                 line3 = line3 @ '',''
             in (csv, line2, line3, lines))"
  have visit: "visit (uuid, info) (csv, line2, line3, lines) =
      (csv @ serviceName info @ '','', line2 @ name info @ '','',
       line3 @ unit_label cache uuid @ '','', lines @ unit_warning cache uuid)"
    for uuid info csv line2 line3 lines
    by (cases "Map_get cache uuid") (simp_all add: visit_def unit_label_def unit_warning_def)
  have "fold visit cl (csv, line2, line3, lines) =
     (csv @ concat (map (\<lambda>e. serviceName (snd e) @ '','') cl),
      line2 @ concat (map (\<lambda>e. name (snd e) @ '','') cl),
      line3 @ concat (map (\<lambda>e. unit_label cache (fst e) @ '','') cl),
      lines @ concat (map (\<lambda>e. unit_warning cache (fst e)) cl))"
    for csv line2 line3 lines
  proof (induction cl arbitrary: csv line2 line3 lines)
    case Nil
    show ?case by simp
  next
    case (Cons e cl)
    obtain uuid info where e: "e = (uuid, info)" by (cases e)
    show ?case by (simp add: e visit Cons.IH)
  qed
  from this [of "''Timestamp,''" "'',''" "'',''" "[]"]
  have "printLog_header cache cl =
     (csv_row ''Timestamp'' (map (\<lambda>e. serviceName (snd e)) cl),
      csv_row '''' (map (\<lambda>e. name (snd e)) cl),
      csv_row '''' (map (\<lambda>e. unit_label cache (fst e)) cl),
      concat (map (\<lambda>e. unit_warning cache (fst e)) cl))"
    unfolding printLog_header_def visit_def [symmetric]
    by (simp add: csv_row_def comp_def)
  then show ?thesis by (simp add: case_prod_unfold)
qed

lemma printLog_row_cells:
  "printLog_row P cl logEntry csv =
     csv @ concat (map (\<lambda>e. cell_text P logEntry (fst e) @ '','') cl)"
proof -
  define visit where "visit =
    (\<lambda>(uuid, characteristicInfo :: characteristicInfo) csv.
             let csv = (case Map_get logEntry uuid of
                          Some v \<Rightarrow> csv @ ToString P v
                        | None \<Rightarrow> csv)
             in csv @ '','')"
  have visit: "visit (uuid, info) csv = csv @ cell_text P logEntry uuid @ '',''"
    for uuid info csv
    by (cases "Map_get logEntry uuid") (simp_all add: visit_def cell_text_def)
  have "fold visit cl csv =
      csv @ concat (map (\<lambda>e. cell_text P logEntry (fst e) @ '','') cl)" for csv
  proof (induction cl arbitrary: csv)
    case Nil
    show ?case by simp
  next
    case (Cons e cl)
    obtain uuid info where e: "e = (uuid, info)" by (cases e)
    show ?case by (simp add: e visit Cons.IH)
  qed
  then show ?thesis
    unfolding printLog_row_def visit_def [symmetric] .
qed

lemma printLog_rows_fold:
  "fold (\<lambda>(timestamp, logEntry) csv.
            printLog_row P cl logEntry (csv @ [CHR 0x0A] @ timestamp @ '','')) lg csv =
   csv @ concat (map (\<lambda>e.
     [CHR 0x0A] @ csv_row (fst e) (map (\<lambda>c. cell_text P (snd e) (fst c)) cl)) lg)"
proof -
  define visit where "visit =
    (\<lambda>(timestamp, logEntry) csv.
            printLog_row P cl logEntry (csv @ [CHR 0x0A] @ timestamp @ '',''))"
  have visit: "visit (timestamp, logEntry) csv =
      csv @ [CHR 0x0A] @
      csv_row timestamp (map (\<lambda>c. cell_text P logEntry (fst c)) cl)"
    for timestamp logEntry csv
    by (simp add: visit_def printLog_row_cells csv_row_def comp_def)
  have "fold visit lg csv =
      csv @ concat (map (\<lambda>e.
        [CHR 0x0A] @ csv_row (fst e) (map (\<lambda>c. cell_text P (snd e) (fst c)) cl)) lg)"
    for csv
  proof (induction lg arbitrary: csv)
    case Nil
    show ?case by simp
  next
    case (Cons e lg)
    obtain timestamp logEntry where e: "e = (timestamp, logEntry)" by (cases e)
    show ?case by (simp add: e visit Cons.IH)
  qed
  then show ?thesis
    unfolding visit_def [symmetric] .
qed

lemma rows_shift:
  "r @ concat (map (\<lambda>x. [CHR 0x0A] @ f x) xs) @ [CHR 0x0A] =
   concat (map (\<lambda>row. row @ [CHR 0x0A]) (r # map f xs))"
proof (induction xs arbitrary: r)
  case Nil
  show ?case by simp
next
  case (Cons x xs)
  show ?case using Cons.IH [of "f x"] by simp
qed

lemma printLog_csv:
  "printLog P st =
     (csv_text (csv_rows P (presInfoCache st) (characteristicList st) (log' st)),
      concat (map (\<lambda>(uuid, info). unit_warning (presInfoCache st) uuid)
        (characteristicList st)))"
proof -
  let ?cl = "characteristicList st"
  let ?f = "\<lambda>e. csv_row (fst e) (map (\<lambda>c. cell_text P (snd e) (fst c)) ?cl)"
  have "fst (printLog P st) =
      csv_row ''Timestamp'' (map (\<lambda>(uuid, info). serviceName info) ?cl) @ [CHR 0x0A] @
      csv_row '''' (map (\<lambda>(uuid, info). name info) ?cl) @ [CHR 0x0A] @
      (csv_row '''' (map (\<lambda>(uuid, info). unit_label (presInfoCache st) uuid) ?cl) @
       concat (map (\<lambda>x. [CHR 0x0A] @ ?f x) (log' st)) @ [CHR 0x0A])"
    unfolding printLog_def printLog_header_rows Let_def prod.case printLog_rows_fold
    by simp
  also have "\<dots> = csv_text (csv_rows P (presInfoCache st) ?cl (log' st))"
    unfolding rows_shift by (simp add: csv_text_def csv_rows_def case_prod_unfold)
  finally have "fst (printLog P st) =
      csv_text (csv_rows P (presInfoCache st) ?cl (log' st))" .
  moreover have "snd (printLog P st) =
      concat (map (\<lambda>(uuid, info). unit_warning (presInfoCache st) uuid) ?cl)"
    by (simp add: printLog_def printLog_header_rows Let_def case_prod_unfold)
  ultimately show ?thesis by (simp add: prod_eq_iff)
qed

lemma logEntry_of_keys: "map fst (logEntry_of cl) = first_seen (map fst cl)"
proof -
  define visit where "visit =
    (\<lambda>(uuid, characteristicInfo :: characteristicInfo) logEntry.
             Map_set (uuid :: string) (lastEntry characteristicInfo) logEntry)"
  have visit: "visit (uuid, info) logEntry = Map_set uuid (lastEntry info) logEntry"
    for uuid info logEntry
    by (simp add: visit_def)
  have "map fst (fold visit cl acc) = first_seen (map fst acc @ map fst cl)"
    if "distinct (map fst acc)" for acc
    using that
  proof (induction cl arbitrary: acc rule: rev_induct)
    case Nil
    then show ?case by (simp add: first_seen_distinct)
  next
    case (snoc e cl)
    obtain uuid info where e: "e = (uuid, info)" by (cases e)
    show ?case
      using snoc first_seen_snoc [of "map fst acc @ map fst cl" uuid]
      by (simp add: e visit keys_Map_set)
  qed
  from this [of "[]"] show ?thesis
    unfolding logEntry_of_def visit_def [symmetric] by simp
qed


lemma csv_text_last: "rows \<noteq> [] \<Longrightarrow> csv_text rows \<noteq> [] \<and> last (csv_text rows) = CHR 0x0A"
  by (induction rows rule: rev_induct) (simp_all add: csv_text_def)

subsection \<open>The second version\<close>

text \<open>
  On the state that holds the same data, the log accumulator of \<open>part_000\<close> does what
  that of \<open>glove.js\<close> does.
\<close>

lemma getUnitString_v1_eq: "getUnitString_v1 p = getUnitString p"
  by (simp add: getUnitString_v1_def getUnitString_def)

lemma Map_get_cache:
  "Map_get (map (\<lambda>(uuid, charInfo). (uuid, f charInfo)) cl) u = map_option f (Map_get cl u)"
  by (induction cl) (auto simp: Map_get_def)

lemma logEntry_of_v1_eq:
  "logEntry_of_v1 cl =
   logEntry_of (map (\<lambda>(uuid, charInfo).
               (uuid, \<lparr>name = name_v1 charInfo, serviceName = serviceName_v1 charInfo,
                       lastEntry = lastEntry_v1 charInfo\<rparr>)) cl)"
  unfolding logEntry_of_v1_def logEntry_of_def fold_map
  by (rule arg_cong [where f = "\<lambda>f. fold f cl []"]) (auto simp: fun_eq_iff)

lemma printLog_row_v1_eq:
  "printLog_row_v1 P cl logEntry csv =
   printLog_row P (map (\<lambda>(uuid, charInfo).
               (uuid, \<lparr>name = name_v1 charInfo, serviceName = serviceName_v1 charInfo,
                       lastEntry = lastEntry_v1 charInfo\<rparr>)) cl) logEntry csv"
  unfolding printLog_row_v1_def printLog_row_def fold_map
  by (rule arg_cong [where f = "\<lambda>f. fold f cl csv"]) (auto simp: fun_eq_iff)

lemma printLog_header_v1_eq:
  "printLog_header_v1 cl =
   printLog_header (map (\<lambda>(uuid, charInfo). (uuid, presInfo_v1 charInfo)) cl)
     (map (\<lambda>(uuid, charInfo).
               (uuid, \<lparr>name = name_v1 charInfo, serviceName = serviceName_v1 charInfo,
                       lastEntry = lastEntry_v1 charInfo\<rparr>)) cl)"
  unfolding printLog_header_v1_def printLog_header_def fold_map
  by (rule arg_cong [where f = "\<lambda>f. fold f cl (''Timestamp,'', '','', '','', [])"])
     (auto simp: fun_eq_iff Map_get_cache getUnitString_v1_eq split: option.split)

lemma printLog_v1_eq: "printLog_v1 P st = printLog P (glove_state st)"
  by (simp add: printLog_v1_def printLog_def glove_state_def printLog_header_v1_eq
      printLog_row_v1_eq)

lemma updateLog_v1_eq: "glove_state (updateLog_v1 st now) = updateLog (glove_state st) now"
  by (simp add: updateLog_v1_def updateLog_def glove_state_def logEntry_of_v1_eq Let_def)

lemma logStart_v1_eq: "glove_state (logStart_v1 st p) = logStart (glove_state st) p"
  by (simp add: logStart_v1_def logStart_def glove_state_def setInterval_v1_def setInterval_def
      Map_clear_def Let_def)

lemma clearInterval_v1_eq:
  "glove_state (clearInterval_v1 st h) = clearInterval (glove_state st) h"
  by (simp add: clearInterval_v1_def clearInterval_def glove_state_def split: option.split)

lemma logStop_v1_eq: "glove_state (logStop_v1 P st) = logStop P (glove_state st)"
proof -
  have l: "log_v1 (clearInterval_v1 st h) = log_v1 st" for h
    by (simp add: clearInterval_v1_def split: option.split)
  have l': "log' (glove_state s) = log_v1 s" "logTimer (glove_state s) = logTimer_v1 s" for s
    by (simp_all add: glove_state_def)
  have s: "glove_state (saveLog_v1 (console_log_v1 lines s) str) =
      saveLog (console_log lines (glove_state s)) str" for lines s str
    by (simp add: glove_state_def saveLog_v1_def saveLog_def console_log_v1_def console_log_def)
  show ?thesis
    by (simp add: logStop_v1_def logStop_def Let_def printLog_v1_eq s l l' Map_size_def
        clearInterval_v1_eq [symmetric] split: prod.split)
qed

text \<open>
  Claim C7. For every registry and every log, the text that \<open>printLog\<close> returns is the
  rows of the table, each followed by a newline: three header rows (\<open>Timestamp\<close> and the
  service names; an empty first field and the characteristic names; an empty first field
  and the unit labels), then one row for each row of the log, in the order of the log,
  holding the timestamp and one field for each characteristic, in the order of the
  registry, empty where the row has no value for it. The text ends with a newline. The
  \<open>printLog\<close> of \<open>part_000\<close> returns the same text for the same data.
\<close>

theorem printLog_table:
  "printLog P st =
     (csv_text (csv_rows P (presInfoCache st) (characteristicList st) (log' st)),
      concat (map (\<lambda>(uuid, info). unit_warning (presInfoCache st) uuid)
        (characteristicList st))) \<and>
   length (csv_rows P (presInfoCache st) (characteristicList st) (log' st)) =
     3 + length (log' st) \<and>
   last (fst (printLog P st)) = CHR 0x0A \<and>
   printLog_v1 P st1 = printLog P (glove_state st1)"
proof -
  have "csv_rows P (presInfoCache st) (characteristicList st) (log' st) \<noteq> []"
    by (simp add: csv_rows_def)
  then show ?thesis
    using csv_text_last [of "csv_rows P (presInfoCache st) (characteristicList st) (log' st)"]
    by (simp add: printLog_csv printLog_v1_eq) (simp add: csv_rows_def)
qed

lemma updateVal_entry:
  assumes "Map_get (characteristicList st) u = Some ci"
  shows "\<exists>v. Map_get (characteristicList (fst (updateVal P st u dv p))) u =
    Some (ci\<lparr>lastEntry := v\<rparr>)"
proof -
  have same: "ci\<lparr>lastEntry := lastEntry ci\<rparr> = ci" by simp
  have keep: "\<exists>v. Map_get (characteristicList st) u = Some (ci\<lparr>lastEntry := v\<rparr>)"
    using assms same by metis
  have set: "\<exists>v. Map_get (characteristicList (cacheValue (console_log lines st) u w)) u =
      Some (ci\<lparr>lastEntry := v\<rparr>)" for lines w
    using assms by (auto simp: cacheValue_def Map_get_def map_of_Map_set)
  show ?thesis
    using keep set
    by (auto simp: updateVal_def Let_def split: option.split prod.split sum.split)
qed

lemma onValueRead_entry:
  "\<exists>v. Map_get (characteristicList (fst (onValueRead P st u n s p dv))) u =
     Some \<lparr>name = n, serviceName = s, lastEntry = v\<rparr>"
proof -
  let ?st1 = "showCharacteristic
          (st\<lparr>characteristicList :=
             Map_set u \<lparr>name = n, serviceName = s, lastEntry = JStr ''''\<rparr>
               (characteristicList st)\<rparr>) u n"
  have "Map_get (characteristicList ?st1) u =
      Some \<lparr>name = n, serviceName = s, lastEntry = JStr ''''\<rparr>"
    by (simp add: showCharacteristic_def Map_get_def map_of_Map_set)
  from updateVal_entry [OF this, of P dv p]
  obtain v where "Map_get (characteristicList (fst (updateVal P ?st1 u dv p))) u =
      Some \<lparr>name = n, serviceName = s, lastEntry = v\<rparr>"
    by auto
  moreover from onValueRead_state [of P st u n s p dv] obtain lines where
    "fst (onValueRead P st u n s p dv) = console_log lines (fst (updateVal P ?st1 u dv p))" ..
  ultimately show ?thesis by auto
qed

text \<open>
  Claim C6. From a registry with distinct identifiers (the empty one of a new
  connection included), after every sequence of events (registrations, notifications,
  ticks, starts and stops of the log, in any order) the identifiers of the registry, the
  identifiers of the row that a tick captures, and hence the columns of the CSV text,
  stand in the order of first registration. Registering an identifier that is present
  leaves the order as it is and replaces its record.
\<close>

theorem registry_order:
  "distinct (map fst (characteristicList st)) \<longrightarrow>
     map fst (characteristicList (run P st evs)) =
       first_seen (map fst (characteristicList st) @ registered evs) \<and>
     map fst (logEntry_of (characteristicList (run P st evs))) =
       first_seen (map fst (characteristicList st) @ registered evs) \<and>
     fst (printLog P (run P st evs)) =
       csv_text (csv_rows P (presInfoCache (run P st evs))
         (characteristicList (run P st evs)) (log' (run P st evs))) \<and>
     (uuid \<in> set (map fst (characteristicList st)) \<longrightarrow>
        map fst (characteristicList (step P st (ValueRead uuid n s p dv))) =
          map fst (characteristicList st) \<and>
        (\<exists>v. Map_get (characteristicList (step P st (ValueRead uuid n s p dv))) uuid =
           Some \<lparr>name = n, serviceName = s, lastEntry = v\<rparr>))"
proof (intro impI conjI)
  assume d: "distinct (map fst (characteristicList st))"
  then show keys: "map fst (characteristicList (run P st evs)) =
       first_seen (map fst (characteristicList st) @ registered evs)"
    by (rule run_keys)
  show "map fst (logEntry_of (characteristicList (run P st evs))) =
       first_seen (map fst (characteristicList st) @ registered evs)"
    unfolding logEntry_of_keys keys
    by (rule first_seen_distinct) simp
  show "fst (printLog P (run P st evs)) =
       csv_text (csv_rows P (presInfoCache (run P st evs))
         (characteristicList (run P st evs)) (log' (run P st evs)))"
    by (simp add: printLog_csv)
next
  assume "uuid \<in> set (map fst (characteristicList st))"
  then show "map fst (characteristicList (step P st (ValueRead uuid n s p dv))) =
          map fst (characteristicList st)"
    by (simp add: onValueRead_keys)
next
  show "\<exists>v. Map_get (characteristicList (step P st (ValueRead uuid n s p dv))) uuid =
           Some \<lparr>name = n, serviceName = s, lastEntry = v\<rparr>"
    using onValueRead_entry [of P st uuid n s p dv] by simp
qed

subsection \<open>The rows of the log\<close>

lemma step_log_keys:
  "\<not> is_LogStart ev \<Longrightarrow>
   map fst (log' (step P st ev)) =
     (case ticked [ev] of
        [] \<Rightarrow> map fst (log' st)
      | ts # tss \<Rightarrow>
          if ts \<in> set (map fst (log' st)) then map fst (log' st)
          else map fst (log' st) @ [ts])"
  by (cases ev) (simp_all add: keys_Map_set)

lemma run_log_keys:
  assumes "distinct (map fst (log' st))" "\<forall>ev \<in> set evs. \<not> is_LogStart ev"
  shows "map fst (log' (run P st evs)) = first_seen (map fst (log' st) @ ticked evs)"
  using assms(2)
proof (induction evs rule: rev_induct)
  case Nil
  show ?case using assms(1) by (simp add: run_Nil first_seen_distinct)
next
  case (snoc ev evs)
  then have IH: "map fst (log' (run P st evs)) = first_seen (map fst (log' st) @ ticked evs)"
    and ev: "\<not> is_LogStart ev"
    by simp_all
  show ?case
  proof (cases "ticked [ev]")
    case Nil
    then show ?thesis
      using IH by (simp add: run_snoc step_log_keys [OF ev] ticked_append)
  next
    case (Cons ts tss)
    then have one: "ticked [ev] = [ts]"
      by (cases ev) simp_all
    show ?thesis
      using IH first_seen_snoc [of "map fst (log' st) @ ticked evs" ts]
      by (simp add: run_snoc step_log_keys [OF ev] ticked_append one)
  qed
qed

lemma step_log_row:
  "\<not> is_LogStart ev \<Longrightarrow> ts \<notin> set (ticked [ev]) \<Longrightarrow>
   Map_get (log' (step P st ev)) ts = Map_get (log' st) ts"
  by (cases ev) (simp_all add: Map_get_def map_of_Map_set)

lemma run_log_row:
  assumes "\<forall>ev \<in> set evs. \<not> is_LogStart ev" "ts \<notin> set (ticked evs)"
  shows "Map_get (log' (run P st evs)) ts = Map_get (log' st) ts"
  using assms
proof (induction evs rule: rev_induct)
  case Nil
  show ?case by (simp add: run_Nil)
next
  case (snoc ev evs)
  then show ?case
    by (simp add: run_snoc ticked_append step_log_row)
qed

lemma run_Cons: "run P st (ev # evs) = run P (step P st ev) evs"
  by (simp add: run_def)

lemma tick_row:
  assumes "\<forall>ev \<in> set evs2. \<not> is_LogStart ev" "printTimestamp now \<notin> set (ticked evs2)"
  shows "Map_get (log' (run P st (evs1 @ Tick now # evs2))) (printTimestamp now) =
    Some (logEntry_of (characteristicList (run P st evs1)))"
proof -
  have "Map_get (log' (run P st (evs1 @ Tick now # evs2))) (printTimestamp now) =
      Map_get (log' (step P (run P st evs1) (Tick now))) (printTimestamp now)"
    using run_log_row [OF assms] by (simp add: run_append run_Cons)
  then show ?thesis by (simp add: Map_get_def map_of_Map_set)
qed

text \<open>
  Claim C8. While the log is not restarted, its timestamps are those of the ticks in the
  order of their first occurrence, each once; the row of a timestamp is the registry
  as the last tick with that timestamp found it; and two dates that agree up to the
  second have the same timestamp, so two ticks within one second leave one row, that of
  the later tick. The \<open>updateLog\<close> of \<open>part_000\<close> changes the log in the same way.
\<close>

theorem log_rows:
  "(distinct (map fst (log' st)) \<and> (\<forall>ev \<in> set evs. \<not> is_LogStart ev) \<longrightarrow>
      map fst (log' (run P st evs)) = first_seen (map fst (log' st) @ ticked evs) \<and>
      distinct (map fst (log' (run P st evs)))) \<and>
   ((\<forall>ev \<in> set evs2. \<not> is_LogStart ev) \<and> printTimestamp now \<notin> set (ticked evs2) \<longrightarrow>
      Map_get (log' (run P st (evs1 @ Tick now # evs2))) (printTimestamp now) =
        Some (logEntry_of (characteristicList (run P st evs1)))) \<and>
   (getFullYear now = getFullYear now' \<and> getMonth now = getMonth now' \<and>
    getDate now = getDate now' \<and> getHours now = getHours now' \<and>
    getMinutes now = getMinutes now' \<and> getSeconds now = getSeconds now' \<longrightarrow>
      printTimestamp now = printTimestamp now') \<and>
   glove_state (updateLog_v1 st1 now) = updateLog (glove_state st1) now"
proof (intro conjI impI)
  assume a: "distinct (map fst (log' st)) \<and> (\<forall>ev \<in> set evs. \<not> is_LogStart ev)"
  then show keys: "map fst (log' (run P st evs)) = first_seen (map fst (log' st) @ ticked evs)"
    using run_log_keys [of st evs P] by simp
  show "distinct (map fst (log' (run P st evs)))"
    unfolding keys by simp
next
  assume "(\<forall>ev \<in> set evs2. \<not> is_LogStart ev) \<and> printTimestamp now \<notin> set (ticked evs2)"
  then show "Map_get (log' (run P st (evs1 @ Tick now # evs2))) (printTimestamp now) =
        Some (logEntry_of (characteristicList (run P st evs1)))"
    using tick_row [of evs2 now P st evs1] by simp
next
  assume "getFullYear now = getFullYear now' \<and> getMonth now = getMonth now' \<and>
    getDate now = getDate now' \<and> getHours now = getHours now' \<and>
    getMinutes now = getMinutes now' \<and> getSeconds now = getSeconds now'"
  then show "printTimestamp now = printTimestamp now'"
    by (simp add: printTimestamp_def)
next
  show "glove_state (updateLog_v1 st1 now) = updateLog (glove_state st1) now"
    by (rule updateLog_v1_eq)
qed

subsection \<open>Stopping the log\<close>

lemma printLog_clearInterval: "printLog P (clearInterval st h) = printLog P st"
  by (simp add: printLog_csv)

lemma logStop_saved:
  "saved (logStop P st) =
     (if log' st = [] then saved st else saved st @ [fst (printLog P st)])"
  by (simp add: logStop_def Let_def Map_size_def printLog_clearInterval split: prod.split)

lemma logStop_intervals:
  "intervals (logStop P st) = intervals (clearInterval st (logTimer st))"
  by (simp add: logStop_def Let_def split: prod.split)

text \<open>
  Claim C9, amended. \<open>logStop\<close> cancels the interval held in \<open>logTimer\<close>; when the log is
  not empty it renders the CSV text and hands it to \<open>saveLog\<close>, and otherwise saves
  nothing; it leaves the log as it is. The log is emptied by \<open>logStart\<close>. The
  \<open>logStop\<close> and \<open>logStart\<close> of \<open>part_000\<close> do the same.
\<close>

theorem logStop_exports:
  "(logTimer st = Some t \<longrightarrow> t \<notin> fst ` set (intervals (logStop P st))) \<and>
   (log' st \<noteq> [] \<longrightarrow>
      saved (logStop P st) =
        saved st @
        [csv_text (csv_rows P (presInfoCache st) (characteristicList st) (log' st))]) \<and>
   (log' st = [] \<longrightarrow> saved (logStop P st) = saved st) \<and>
   log' (logStop P st) = log' st \<and>
   log' (logStart st logPeriod) = [] \<and>
   glove_state (logStop_v1 P st1) = logStop P (glove_state st1) \<and>
   glove_state (logStart_v1 st1 logPeriod) = logStart (glove_state st1) logPeriod"
proof -
  have "log' (logStop P st) = log' st"
    by (simp add: logStop_fields)
  moreover have "log' (logStart st logPeriod) = []"
    by (simp add: logStart_def setInterval_def Map_clear_def Let_def)
  moreover have "logTimer st = Some t \<longrightarrow> t \<notin> fst ` set (intervals (logStop P st))"
    by (auto simp: logStop_intervals clearInterval_def)
  ultimately show ?thesis
    by (simp add: logStop_saved printLog_csv logStop_v1_eq logStart_v1_eq)
qed


section \<open>The example session\<close>

text \<open>The states after discovery and after the ticks, computed from the definitions.\<close>

lemma discovered_state:
  "discovered =
   \<lparr>presInfoCache = [(''2a19'', battery_level), (''2a6e'', temperature)],
    characteristicList =
      [(''2a19'', \<lparr>name = ''Level'', serviceName = ''Battery'', lastEntry = JStr ''80''\<rparr>),
       (''2a6e'', \<lparr>name = ''Temperature'', serviceName = ''Environmental Sensor'',
                  lastEntry = JStr ''23.45''\<rparr>)],
    log' = [], logTimer = None, intervals = [], nextTimerId = 0,
    cells =
      [(''2a19'', ''80 %''),
       (''2a6e'', ''23.45 '' @ [CHR 0xC3, CHR 0x82, CHR 0xC2, CHR 0xB0, CHR ''C''])],
    console =
      [[JStr (''Started notifications for UUID '' @ [CHR 0x22]), JStr ''2a19'', JStr [CHR 0x22]],
       [JStr (''Started notifications for UUID '' @ [CHR 0x22]), JStr ''2a6e'', JStr [CHR 0x22]]],
    saved = []\<rparr>"
  by code_simp

lemma logged_state:
  "logged =
   \<lparr>presInfoCache = [(''2a19'', battery_level), (''2a6e'', temperature)],
    characteristicList =
      [(''2a19'', \<lparr>name = ''Level'', serviceName = ''Battery'', lastEntry = JStr ''80''\<rparr>),
       (''2a6e'', \<lparr>name = ''Temperature'', serviceName = ''Environmental Sensor'',
                  lastEntry = JStr ''23.46''\<rparr>)],
    log' =
      [(''2025/01/02 03:04:05'', [(''2a19'', JStr ''80''), (''2a6e'', JStr ''23.46'')]),
       (''2025/01/02 03:04:06'', [(''2a19'', JStr ''80''), (''2a6e'', JStr ''23.46'')])],
    logTimer = Some 0, intervals = [(0, ''1000'')], nextTimerId = 1,
    cells =
      [(''2a19'', ''80 %''),
       (''2a6e'', ''23.46 '' @ [CHR 0xC3, CHR 0x82, CHR 0xC2, CHR 0xB0, CHR ''C''])],
    console =
      [[JStr (''Started notifications for UUID '' @ [CHR 0x22]), JStr ''2a19'', JStr [CHR 0x22]],
       [JStr (''Started notifications for UUID '' @ [CHR 0x22]), JStr ''2a6e'', JStr [CHR 0x22]]],
    saved = []\<rparr>"
  by code_simp

lemma logged_csv:
  "csv_text (csv_rows unrounded_platform (presInfoCache logged) (characteristicList logged)
     (log' logged)) =
   ''Timestamp,Battery,Environmental Sensor,'' @ [CHR 0x0A] @
   '',Level,Temperature,'' @ [CHR 0x0A] @
   '',%,'' @ [CHR 0xC3, CHR 0x82, CHR 0xC2, CHR 0xB0, CHR ''C''] @ '','' @ [CHR 0x0A] @
   ''2025/01/02 03:04:05,80,23.46,'' @ [CHR 0x0A] @
   ''2025/01/02 03:04:06,80,23.46,'' @ [CHR 0x0A]"
  unfolding logged_state by code_simp

lemma timestamps:
  "printTimestamp (tick_at 5 0) = ''2025/01/02 03:04:05''"
  "printTimestamp (tick_at 5 900) = ''2025/01/02 03:04:05''"
  "printTimestamp (tick_at 6 0) = ''2025/01/02 03:04:06''"
  by code_simp+

theorem registry_order_witness:
  "map fst (characteristicList (run unrounded_platform initial_state (discovery @ logging))) =
     [''2a19'', ''2a6e''] \<and>
   map fst (logEntry_of
     (characteristicList (run unrounded_platform initial_state (discovery @ logging)))) =
     [''2a19'', ''2a6e''] \<and>
   ''2a19'' \<in> set (map fst (characteristicList discovered)) \<and>
   map fst (characteristicList
     (step unrounded_platform discovered
        (ValueRead ''2a19'' ''Charge'' ''Battery'' battery_level [79]))) =
     [''2a19'', ''2a6e'']"
proof -
  have d: "distinct (map fst (characteristicList initial_state))"
    by (simp add: initial_state_def)
  have r: "first_seen (map fst (characteristicList initial_state) @
      registered (discovery @ logging)) = [''2a19'', ''2a6e'']"
    by (simp add: initial_state_def discovery_def logging_def)
  have k: "map fst (characteristicList discovered) = [''2a19'', ''2a6e'']"
    by (simp add: discovered_state)
  from registry_order [where st = initial_state and P = unrounded_platform
      and evs = "discovery @ logging"] d
  have "map fst (characteristicList (run unrounded_platform initial_state (discovery @ logging))) =
      first_seen (map fst (characteristicList initial_state) @ registered (discovery @ logging)) \<and>
    map fst (logEntry_of
      (characteristicList (run unrounded_platform initial_state (discovery @ logging)))) =
      first_seen (map fst (characteristicList initial_state) @ registered (discovery @ logging))"
    by blast
  moreover
  from registry_order [where st = discovered and P = unrounded_platform and evs = "[]"
      and uuid = "''2a19''" and n = "''Charge''" and s = "''Battery''" and p = battery_level
      and dv = "[79]"] k
  have "map fst (characteristicList
     (step unrounded_platform discovered
        (ValueRead ''2a19'' ''Charge'' ''Battery'' battery_level [79]))) =
     map fst (characteristicList discovered)"
    by simp
  ultimately show ?thesis
    unfolding r k by simp
qed

theorem log_rows_witness:
  "map fst (log' (run unrounded_platform (logStart discovered ''1000'') logging)) =
     [''2025/01/02 03:04:05'', ''2025/01/02 03:04:06''] \<and>
   Map_get (log' (run unrounded_platform (logStart discovered ''1000'') logging))
     (printTimestamp (tick_at 5 900)) =
     Some (logEntry_of (characteristicList
       (run unrounded_platform (logStart discovered ''1000'')
          [Tick (tick_at 5 0), Notify ''2a6e'' [0x2A, 0x09]]))) \<and>
   printTimestamp (tick_at 5 0) = printTimestamp (tick_at 5 900)"
proof -
  let ?st = "logStart discovered ''1000''"
  have d: "distinct (map fst (log' ?st)) \<and> (\<forall>ev \<in> set logging. \<not> is_LogStart ev)"
    by (simp add: logging_def)
  have t: "first_seen (map fst (log' ?st) @ ticked logging) =
      [''2025/01/02 03:04:05'', ''2025/01/02 03:04:06'']"
    by (simp add: logging_def timestamps)
  have t2: "(\<forall>ev \<in> set [Tick (tick_at 6 0)]. \<not> is_LogStart ev) \<and>
      printTimestamp (tick_at 5 900) \<notin> set (ticked [Tick (tick_at 6 0)])"
    by (simp add: timestamps)
  have l: "[Tick (tick_at 5 0), Notify ''2a6e'' [0x2A, 0x09]] @
      Tick (tick_at 5 900) # [Tick (tick_at 6 0)] = logging"
    by (simp add: logging_def)
  have same: "getFullYear (tick_at 5 900) = getFullYear (tick_at 5 0) \<and>
      getMonth (tick_at 5 900) = getMonth (tick_at 5 0) \<and>
      getDate (tick_at 5 900) = getDate (tick_at 5 0) \<and>
      getHours (tick_at 5 900) = getHours (tick_at 5 0) \<and>
      getMinutes (tick_at 5 900) = getMinutes (tick_at 5 0) \<and>
      getSeconds (tick_at 5 900) = getSeconds (tick_at 5 0)"
    by (simp add: tick_at_def)
  note A = log_rows [where st = ?st and evs = logging and P = unrounded_platform
      and ?evs2.0 = "[Tick (tick_at 6 0)]" and now = "tick_at 5 900"
      and ?evs1.0 = "[Tick (tick_at 5 0), Notify ''2a6e'' [0x2A, 0x09]]"
      and now' = "tick_at 5 0", unfolded l]
  from A d have "map fst (log' (run unrounded_platform ?st logging)) =
      first_seen (map fst (log' ?st) @ ticked logging)"
    by blast
  moreover from A t2 have "Map_get (log' (run unrounded_platform ?st logging))
     (printTimestamp (tick_at 5 900)) =
     Some (logEntry_of (characteristicList
       (run unrounded_platform ?st [Tick (tick_at 5 0), Notify ''2a6e'' [0x2A, 0x09]])))"
    by blast
  moreover from A same have "printTimestamp (tick_at 5 900) = printTimestamp (tick_at 5 0)"
    by blast
  ultimately show ?thesis
    unfolding t by simp
qed

theorem logStop_exports_witness:
  "logTimer logged = Some 0 \<and>
   0 \<notin> fst ` set (intervals (logStop unrounded_platform logged)) \<and>
   log' logged \<noteq> [] \<and>
   saved (logStop unrounded_platform logged) =
     [''Timestamp,Battery,Environmental Sensor,'' @ [CHR 0x0A] @
      '',Level,Temperature,'' @ [CHR 0x0A] @
      '',%,'' @ [CHR 0xC3, CHR 0x82, CHR 0xC2, CHR 0xB0, CHR ''C''] @ '','' @ [CHR 0x0A] @
      ''2025/01/02 03:04:05,80,23.46,'' @ [CHR 0x0A] @
      ''2025/01/02 03:04:06,80,23.46,'' @ [CHR 0x0A]] \<and>
   log' initial_state = [] \<and>
   saved (logStop unrounded_platform initial_state) = []"
proof -
  have a: "logTimer logged = Some 0" "log' logged \<noteq> []" "saved logged = []"
    by (simp_all add: logged_state)
  have f: "log' initial_state = []" "saved initial_state = []"
    by (simp_all add: initial_state_def)
  note A = logStop_exports [where st = logged and t = 0 and P = unrounded_platform,
      unfolded logged_csv]
  note B = logStop_exports [where st = initial_state and P = unrounded_platform]
  from A a have "0 \<notin> fst ` set (intervals (logStop unrounded_platform logged))"
    by blast
  moreover from A a have "saved (logStop unrounded_platform logged) =
     saved logged @
     [''Timestamp,Battery,Environmental Sensor,'' @ [CHR 0x0A] @
      '',Level,Temperature,'' @ [CHR 0x0A] @
      '',%,'' @ [CHR 0xC3, CHR 0x82, CHR 0xC2, CHR 0xB0, CHR ''C''] @ '','' @ [CHR 0x0A] @
      ''2025/01/02 03:04:05,80,23.46,'' @ [CHR 0x0A] @
      ''2025/01/02 03:04:06,80,23.46,'' @ [CHR 0x0A]]"
    by blast
  moreover from B f have "saved (logStop unrounded_platform initial_state) = saved initial_state"
    by blast
  ultimately show ?thesis
    using a f by simp
qed

text \<open>
  The claim as stated fails where it has the log cleared when logging stops: after the
  session above, \<open>logStop\<close> has saved the text and the log still holds its two rows.
\<close>

theorem logStop_keeps_log_counterexample:
  "saved (logStop unrounded_platform logged) \<noteq> [] \<and>
   log' (logStop unrounded_platform logged) =
     [(''2025/01/02 03:04:05'', [(''2a19'', JStr ''80''), (''2a6e'', JStr ''23.46'')]),
      (''2025/01/02 03:04:06'', [(''2a19'', JStr ''80''), (''2a6e'', JStr ''23.46'')])]"
  by (simp add: logStop_saved) (simp add: logged_state)


end
